theory Spec2Isabelle
  imports Main "HOL-Library.Code_Target_Nat"
begin

section \<open>The browser session\<close>

text \<open>
  Both scraper classes drive a Selenium session. The session is external to the program, so
  it is a parameter of the model: a record of operations over an abstract page state
  \<open>'p\<close>, each of which either returns a value or raises, and each of which may change the
  page (the fixed sleeps after \<open>driver.get\<close> and after every scroll are part of the
  operation's effect on the page). Python exceptions are values \<open>Error msg\<close>, where
  \<open>msg\<close> is what \<open>str(e)\<close> gives.
\<close>

datatype error = Error string

text \<open>
  Every call made on the driver is recorded, in order, in a trace: which operation was
  called, and whether it raised, returned, or returned a measured height. \<open>Start\<close> is
  the constructor call \<open>webdriver.Chrome(...)\<close>: when it returns, a browser session
  exists, and it exists until \<open>quit\<close> is called on it.
\<close>

datatype operation =
  Start | MaximizeWindow | SetPageLoadTimeout | ImplicitlyWait |
  Get | Height | Scroll | Extract | Quit

datatype outcome = Raised | Returned | Measured int

type_synonym event = "operation \<times> outcome"

record 'p world =
  page :: 'p
  trace :: "event list"

type_synonym ('p, 'a) call = "'p \<Rightarrow> (error + 'a) \<times> 'p"

text \<open>
  A call on the driver, recorded. The exception is of any type \<open>'e\<close>: the calls of
  \<open>_init_driver\<close> raise exceptions whose class matters, the later ones exceptions of
  which only the message is used.
\<close>

definition perform ::
  "('p \<Rightarrow> ('e + 'a) \<times> 'p) \<Rightarrow> operation \<Rightarrow> ('a \<Rightarrow> outcome) \<Rightarrow> 'p world \<Rightarrow>
   ('e + 'a) \<times> 'p world" where
  "perform c op out w =
     (case c (page w) of
        (Inl e, p') \<Rightarrow> (Inl e, w\<lparr>page := p', trace := trace w @ [(op, Raised)]\<rparr>)
      | (Inr v, p') \<Rightarrow> (Inr v, w\<lparr>page := p', trace := trace w @ [(op, out v)]\<rparr>))"

subsection \<open>The scroll loop\<close>

text \<open>
  \<^verbatim>\<open>
  max_scrolls = 10
  for i in range(max_scrolls):
      last_height = driver.execute_script("return document.body.scrollHeight")
      driver.execute_script("window.scrollTo(0, document.body.scrollHeight);")
      time.sleep(1.5)
      new_height = driver.execute_script("return document.body.scrollHeight")
      if new_height == last_height:
          break
  \<close>
  The first argument of \<open>scroll_loop\<close> is the number of iterations of \<open>range\<close> still to
  run. The loop is the same text in \<open>scraper.py\<close> and \<open>scraper_optimized.py\<close>.
\<close>

fun scroll_loop ::
  "('p, int) call \<Rightarrow> ('p, unit) call \<Rightarrow> nat \<Rightarrow> 'p world \<Rightarrow> (error + unit) \<times> 'p world" where
  "scroll_loop height scroll 0 w = (Inr (), w)"
| "scroll_loop height scroll (Suc n) w =
     (case perform height Height Measured w of
        (Inl e, w1) \<Rightarrow> (Inl e, w1)
      | (Inr last_height, w1) \<Rightarrow>
          (case perform scroll Scroll (\<lambda>_. Returned) w1 of
             (Inl e, w2) \<Rightarrow> (Inl e, w2)
           | (Inr _, w2) \<Rightarrow>
               (case perform height Height Measured w2 of
                  (Inl e, w3) \<Rightarrow> (Inl e, w3)
                | (Inr new_height, w3) \<Rightarrow>
                    if new_height = last_height then (Inr (), w3)
                    else scroll_loop height scroll n w3)))"

definition max_scrolls :: nat where
  "max_scrolls = 10"

text \<open>
  Reading a trace of the loop back: each completed iteration is a height, a scroll and a
  height; \<open>iterations\<close> lists the (before, after) pairs of the completed iterations.
\<close>

fun iterations :: "event list \<Rightarrow> (int \<times> int) list" where
  "iterations ((Height, Measured a) # (Scroll, Returned) # (Height, Measured b) # es) = (a, b) # iterations es"
| "iterations es = []"

text \<open>
  A page for examples: the page state is the number of scrolls made so far, and the
  document height is a function of it. No call raises.
\<close>

definition page_height :: "(nat \<Rightarrow> int) \<Rightarrow> (nat, int) call" where
  "page_height h k = (Inr (h k), k)"

definition page_scroll :: "(nat, unit) call" where
  "page_scroll k = (Inr (), Suc k)"

definition grows_twice :: "nat \<Rightarrow> int" where
  "grows_twice k = (if k = 0 then 1000 else if k = 1 then 2000 else 3000)"

definition never_settles :: "nat \<Rightarrow> int" where
  "never_settles k = 1000 * int k"

definition fresh :: "nat world" where
  "fresh = \<lparr>page = 0, trace = []\<rparr>"

section \<open>Text\<close>

text \<open>
  Python strings are modelled as HOL strings: a character is a code point below 256.
  White space is what \<open>str.isspace\<close> and the class \<open>\s\<close> of \<open>re\<close> accept there: the
  characters 9 to 13, 28 to 31, the blank, and the code points 0x85 (next line) and 0xA0
  (no-break space). \<open>lower\<close>, \<open>upper\<close> and \<open>title\<close> act on the ASCII letters and
  leave every other character alone. The month and weekday names are those of the C
  locale.
\<close>

definition is_space :: "char \<Rightarrow> bool" where
  "is_space c = (c \<in> set [CHR 0x09, CHR 0x0A, CHR 0x0B, CHR 0x0C, CHR 0x0D,
                            CHR 0x1C, CHR 0x1D, CHR 0x1E, CHR 0x1F, CHR '' '',
                            CHR 0x85, CHR 0xA0])"

definition is_digit :: "char \<Rightarrow> bool" where
  "is_digit c = (c \<in> set ''0123456789'')"

definition lower_char :: "char \<Rightarrow> char" where
  "lower_char c =
     (case map_of (zip ''ABCDEFGHIJKLMNOPQRSTUVWXYZ'' ''abcdefghijklmnopqrstuvwxyz'') c of
        Some l \<Rightarrow> l | None \<Rightarrow> c)"

definition upper_char :: "char \<Rightarrow> char" where
  "upper_char c =
     (case map_of (zip ''abcdefghijklmnopqrstuvwxyz'' ''ABCDEFGHIJKLMNOPQRSTUVWXYZ'') c of
        Some u \<Rightarrow> u | None \<Rightarrow> c)"

definition is_cased :: "char \<Rightarrow> bool" where
  "is_cased c = (c \<in> set ''ABCDEFGHIJKLMNOPQRSTUVWXYZabcdefghijklmnopqrstuvwxyz'')"

definition lower :: "string \<Rightarrow> string" where
  "lower s = map lower_char s"

definition strip :: "string \<Rightarrow> string" where
  "strip s = rev (dropWhile is_space (rev (dropWhile is_space s)))"

text \<open>
  \<open>str.title\<close>: a cased character is upper-cased when the character before it is not
  cased, and lower-cased when it is.
\<close>

fun title_from :: "bool \<Rightarrow> string \<Rightarrow> string" where
  "title_from previous_is_cased [] = []"
| "title_from previous_is_cased (c # cs) =
     (if previous_is_cased then lower_char c else upper_char c) # title_from (is_cased c) cs"

definition title :: "string \<Rightarrow> string" where
  "title s = title_from False s"

text \<open>\<open>needle in haystack\<close> on strings.\<close>

fun startswith :: "string \<Rightarrow> string \<Rightarrow> bool" where
  "startswith s [] = True"
| "startswith [] (k # ks) = False"
| "startswith (c # cs) (k # ks) = (c = k \<and> startswith cs ks)"

fun py_in :: "string \<Rightarrow> string \<Rightarrow> bool" where
  "py_in needle [] = (needle = [])"
| "py_in needle (c # cs) = (startswith (c # cs) needle \<or> py_in needle cs)"

text \<open>\<open>int(s)\<close> for a string of decimal digits with white space around it.\<close>

definition digit_val :: "char \<Rightarrow> nat" where
  "digit_val c = of_char c - 48"

definition py_int :: "string \<Rightarrow> nat" where
  "py_int s = foldl (\<lambda>a c. 10 * a + digit_val c) 0 (strip s)"

definition digit_char :: "nat \<Rightarrow> char" where
  "digit_char n = ''0123456789'' ! (n mod 10)"

fun index_of :: "'a \<Rightarrow> 'a list \<Rightarrow> nat option" where
  "index_of x [] = None"
| "index_of x (y # ys) = (if x = y then Some 0 else map_option Suc (index_of x ys))"

section \<open>Calendar dates\<close>

text \<open>
  A \<open>datetime\<close> carries the fields the program uses: the date, and the time of day in
  microseconds (0 for every value that \<open>strptime\<close> builds from the formats below). The
  arithmetic is that of \<open>datetime.py\<close>.
\<close>

record datetime =
  year :: nat
  month :: nat
  day :: nat
  tod :: nat

definition is_leap :: "nat \<Rightarrow> bool" where
  "is_leap y = (y mod 4 = 0 \<and> (y mod 100 \<noteq> 0 \<or> y mod 400 = 0))"

definition days_in_month :: "nat \<Rightarrow> nat \<Rightarrow> nat" where
  "days_in_month y m =
     (if m = 2 \<and> is_leap y then 29 else [0, 31, 28, 31, 30, 31, 30, 31, 31, 30, 31, 30, 31] ! m)"

definition days_before_year :: "nat \<Rightarrow> nat" where
  "days_before_year y = (y - 1) * 365 + (y - 1) div 4 - (y - 1) div 100 + (y - 1) div 400"

definition days_before_month :: "nat \<Rightarrow> nat \<Rightarrow> nat" where
  "days_before_month y m =
     [0, 0, 31, 59, 90, 120, 151, 181, 212, 243, 273, 304, 334] ! m
       + (if m > 2 \<and> is_leap y then 1 else 0)"

definition ymd2ord :: "nat \<Rightarrow> nat \<Rightarrow> nat \<Rightarrow> nat" where
  "ymd2ord y m d = days_before_year y + days_before_month y m + d"

definition toordinal :: "datetime \<Rightarrow> nat" where
  "toordinal dt = ymd2ord (year dt) (month dt) (day dt)"

text \<open>The constructor's check: \<open>datetime(y, m, d)\<close> raises \<open>ValueError\<close> outside these bounds.\<close>

definition valid_date :: "nat \<Rightarrow> nat \<Rightarrow> nat \<Rightarrow> bool" where
  "valid_date y m d =
     (1 \<le> y \<and> y \<le> 9999 \<and> 1 \<le> m \<and> m \<le> 12 \<and> 1 \<le> d \<and> d \<le> days_in_month y m)"

definition make_datetime :: "nat \<Rightarrow> nat \<Rightarrow> nat \<Rightarrow> error + datetime" where
  "make_datetime y m d =
     (if valid_date y m d then Inr \<lparr>year = y, month = m, day = d, tod = 0\<rparr>
      else Inl (Error ''day is out of range for month''))"

text \<open>\<open>dt.replace(year=y)\<close> builds a new datetime and so runs the constructor's check.\<close>

definition replace_year :: "datetime \<Rightarrow> nat \<Rightarrow> error + datetime" where
  "replace_year dt y =
     (if valid_date y (month dt) (day dt) then Inr (dt\<lparr>year := y\<rparr>)
      else Inl (Error ''year or day is out of range''))"

text \<open>
  \<open>a < b\<close> on datetimes compares the fields in order, which is the order of the pairs
  (ordinal of the date, time of day).
\<close>

definition dt_less :: "datetime \<Rightarrow> datetime \<Rightarrow> bool" where
  "dt_less a b = (toordinal a < toordinal b \<or> (toordinal a = toordinal b \<and> tod a < tod b))"

definition dt_le :: "datetime \<Rightarrow> datetime \<Rightarrow> bool" where
  "dt_le a b = (toordinal a < toordinal b \<or> (toordinal a = toordinal b \<and> tod a \<le> tod b))"

text \<open>
  \<open>date_obj < today - timedelta(days=n)\<close>. The subtraction raises \<open>OverflowError\<close> when it
  leaves the range of dates (ordinal below 1); otherwise it keeps the time of day and
  moves the date back by \<open>n\<close> days.
\<close>

definition before_days_ago :: "datetime \<Rightarrow> datetime \<Rightarrow> nat \<Rightarrow> error + bool" where
  "before_days_ago date_obj today n =
     (if toordinal today \<le> n then Inl (Error ''date value out of range'')
      else Inr (toordinal date_obj < toordinal today - n \<or>
                (toordinal date_obj = toordinal today - n \<and> tod date_obj < tod today)))"

text \<open>
  The point in time a \<open>datetime\<close> names, in microseconds since the start of day 0; used
  to state how far apart two values are.
\<close>

definition instant :: "datetime \<Rightarrow> nat" where
  "instant dt = toordinal dt * 86400000000 + tod dt"

text \<open>
  \<open>strftime("%Y-%m-%d")\<close>. How \<open>%Y\<close> prints a year below 1000 depends on the C
  library and the Python version: with four digits (\<open>0500\<close>: Windows, and every
  platform from Python 3.13 on) or as it is (\<open>500\<close>: glibc before Python 3.13). The
  flag \<open>zero_pad\<close> says which; month and day always have two digits. The years of a
  \<open>datetime\<close> are 1 to 9999.
\<close>

definition pad2 :: "nat \<Rightarrow> string" where
  "pad2 n = [digit_char (n div 10), digit_char n]"

definition pad4 :: "nat \<Rightarrow> string" where
  "pad4 n = [digit_char (n div 1000), digit_char (n div 100), digit_char (n div 10), digit_char n]"

definition year_text :: "bool \<Rightarrow> nat \<Rightarrow> string" where
  "year_text zero_pad y =
     (if zero_pad then pad4 y
      else (case dropWhile (\<lambda>c. c = CHR ''0'') (pad4 y) of [] \<Rightarrow> ''0'' | digits \<Rightarrow> digits))"

definition strftime_ymd :: "bool \<Rightarrow> datetime \<Rightarrow> string" where
  "strftime_ymd zero_pad dt =
     year_text zero_pad (year dt) @ ''-'' @ pad2 (month dt) @ ''-'' @ pad2 (day dt)"

text \<open>
  The ISO form \<open>YYYY-MM-DD\<close> of a calendar date: ten characters, digits but for the two
  hyphens, naming a year, a month and a day that exist.
\<close>

definition digits_value :: "string \<Rightarrow> nat" where
  "digits_value s = foldl (\<lambda>a c. 10 * a + digit_val c) 0 s"

definition is_iso_date :: "string \<Rightarrow> bool" where
  "is_iso_date s =
     (length s = 10 \<and>
      list_all is_digit (take 4 s) \<and> s ! 4 = CHR ''-'' \<and>
      list_all is_digit (take 2 (drop 5 s)) \<and> s ! 7 = CHR ''-'' \<and>
      list_all is_digit (drop 8 s) \<and>
      valid_date (digits_value (take 4 s)) (digits_value (take 2 (drop 5 s)))
        (digits_value (drop 8 s)))"

section \<open>Parsing dates: \<open>datetime.strptime\<close>\<close>

text \<open>
  \<open>strptime\<close> turns the format into a regular expression and matches it, ignoring case,
  at the start of the text: a directive becomes a group, a run of white space in the
  format becomes \<open>\s+\<close>, every other character stands for itself. The groups the
  program's formats use are
  \<^item> \<open>%A\<close>: one of the seven full weekday names;
  \<^item> \<open>%B\<close>: one of the twelve full month names;
  \<^item> \<open>%d\<close>: \<open>3[0-1]|[1-2]\d|0[1-9]|[1-9]| [1-9]\<close>;
  \<^item> \<open>%m\<close>: \<open>1[0-2]|0[1-9]|[1-9]\<close>;
  \<^item> \<open>%Y\<close>: \<open>\d\d\d\d\<close>.
\<close>

datatype directive = DirA | DirB | Dird | Dirm | DirY

datatype token = Dir directive | Lit char | Spaces

definition directive_of :: "char \<Rightarrow> directive option" where
  "directive_of c =
     map_of [(CHR ''A'', DirA), (CHR ''B'', DirB), (CHR ''d'', Dird), (CHR ''m'', Dirm),
             (CHR ''Y'', DirY)] c"

text \<open>A directive the model does not know, or a stray \<open>%\<close>, gives no pattern.\<close>

fun pattern :: "string \<Rightarrow> token list option" where
  "pattern [] = Some []"
| "pattern [c] = (if c = CHR ''%'' then None else if is_space c then Some [Spaces] else Some [Lit c])"
| "pattern (c # d # cs) =
     (if c = CHR ''%'' then
        (case directive_of d of
           None \<Rightarrow> None
         | Some dir \<Rightarrow> map_option (\<lambda>ts. Dir dir # ts) (pattern cs))
      else if is_space c then
        (if is_space d then pattern (d # cs)
         else map_option (\<lambda>ts. Spaces # ts) (pattern (d # cs)))
      else map_option (\<lambda>ts. Lit c # ts) (pattern (d # cs)))"

definition f_weekday :: "string list" where
  "f_weekday = [''monday'', ''tuesday'', ''wednesday'', ''thursday'', ''friday'', ''saturday'',
                ''sunday'']"

definition f_month :: "string list" where
  "f_month = [[], ''january'', ''february'', ''march'', ''april'', ''may'', ''june'', ''july'',
              ''august'', ''september'', ''october'', ''november'', ''december'']"

text \<open>
  The matcher returns every way a token matches a prefix of the text, as pairs (matched
  text, rest), in the order in which a backtracking matcher tries them: the alternatives
  of a group from left to right, the longest run of white space first. No weekday name
  and no month name begins another one, so at most one name matches at any place and the
  order of the names among themselves does not matter.
\<close>

definition match_alt :: "(char \<Rightarrow> bool) list \<Rightarrow> string \<Rightarrow> (string \<times> string) list" where
  "match_alt classes s =
     (if length classes \<le> length s \<and> list_all2 (\<lambda>cl c. cl c) classes (take (length classes) s)
      then [(take (length classes) s, drop (length classes) s)] else [])"

definition match_name :: "string \<Rightarrow> string \<Rightarrow> (string \<times> string) list" where
  "match_name name s =
     (if length name \<le> length s \<and> lower (take (length name) s) = name
      then [(take (length name) s, drop (length name) s)] else [])"

definition one_of :: "string \<Rightarrow> char \<Rightarrow> bool" where
  "one_of cs c = (c \<in> set cs)"

fun match_token :: "token \<Rightarrow> string \<Rightarrow> (string \<times> string) list" where
  "match_token (Lit l) s = match_alt [\<lambda>c. lower_char c = lower_char l] s"
| "match_token Spaces s =
     map (\<lambda>k. (take k s, drop k s)) (rev [1 ..< Suc (length (takeWhile is_space s))])"
| "match_token (Dir DirA) s = concat (map (\<lambda>name. match_name name s) f_weekday)"
| "match_token (Dir DirB) s = concat (map (\<lambda>name. match_name name s) (tl f_month))"
| "match_token (Dir Dird) s =
     match_alt [one_of ''3'', one_of ''01''] s @
     match_alt [one_of ''12'', is_digit] s @
     match_alt [one_of ''0'', one_of ''123456789''] s @
     match_alt [one_of ''123456789''] s @
     match_alt [one_of '' '', one_of ''123456789''] s"
| "match_token (Dir Dirm) s =
     match_alt [one_of ''1'', one_of ''012''] s @
     match_alt [one_of ''0'', one_of ''123456789''] s @
     match_alt [one_of ''123456789''] s"
| "match_token (Dir DirY) s = match_alt [is_digit, is_digit, is_digit, is_digit] s"

type_synonym groups = "(directive \<times> string) list"

fun bind_group :: "token \<Rightarrow> string \<Rightarrow> groups \<Rightarrow> groups" where
  "bind_group (Dir d) text g = (d, text) # g"
| "bind_group t text g = g"

fun re_match :: "token list \<Rightarrow> string \<Rightarrow> (groups \<times> string) list" where
  "re_match [] s = [([], s)]"
| "re_match (t # ts) s =
     concat (map (\<lambda>(text, rest). map (\<lambda>(g, r). (bind_group t text g, r)) (re_match ts rest))
                 (match_token t s))"

text \<open>
  \<open>_strptime\<close>: the first match counts, and it must use up the whole text. Without a
  \<open>%Y\<close> group the year is 1900; the date is checked in 1904 when it is February 29, but
  the value returned keeps 1900, so that building the \<open>datetime\<close> raises for it.
\<close>

definition group_month :: "groups \<Rightarrow> nat" where
  "group_month found =
     (case map_of found DirB of
        Some name \<Rightarrow> (case index_of (lower name) f_month of Some i \<Rightarrow> i | None \<Rightarrow> 1)
      | None \<Rightarrow> (case map_of found Dirm of Some text \<Rightarrow> py_int text | None \<Rightarrow> 1))"

definition group_day :: "groups \<Rightarrow> nat" where
  "group_day found = (case map_of found Dird of Some text \<Rightarrow> py_int text | None \<Rightarrow> 1)"

definition strptime :: "string \<Rightarrow> string \<Rightarrow> error + datetime" where
  "strptime data_string format =
     (case pattern format of
        None \<Rightarrow> Inl (Error ''bad directive in format'')
      | Some tokens \<Rightarrow>
          (case re_match tokens data_string of
             [] \<Rightarrow> Inl (Error ''time data does not match format'')
           | (found, rest) # _ \<Rightarrow>
               if rest \<noteq> [] then Inl (Error ''unconverted data remains'')
               else
                 let m = group_month found; d = group_day found in
                 (case map_of found DirY of
                    Some text \<Rightarrow> make_datetime (py_int text) m d
                  | None \<Rightarrow>
                      if valid_date (if m = 2 \<and> d = 29 then 1904 else 1900) m d
                      then make_datetime 1900 m d
                      else Inl (Error ''day is out of range for month''))))"

section \<open>The date resolver\<close>

text \<open>
  \<open>TVInsiderScraper._parse_date_optimized\<close> (scraper.py). The body of the \<open>try\<close> is
  \<open>try_format\<close>: \<open>None\<close> stands for an exception, which the bare \<open>except\<close> turns into
  \<open>continue\<close>. The clock read by \<open>datetime.now()\<close> is the parameter \<open>today\<close>; the
  first parameter is the platform's way of printing \<open>%Y\<close>.
\<close>

definition formats :: "string list" where
  "formats = [''%A, %B %d, %Y'', ''%B %d, %Y'', ''%A, %B %d'', ''%B %d'']"

definition try_format ::
  "bool \<Rightarrow> string \<Rightarrow> nat \<Rightarrow> datetime \<Rightarrow> string \<Rightarrow> string option" where
  "try_format zero_pad date_text current_year today fmt =
     (case strptime date_text fmt of
        Inl e \<Rightarrow> None
      | Inr date_obj \<Rightarrow>
          if \<not> py_in ''%Y'' fmt then
            (case replace_year date_obj current_year of
               Inl e \<Rightarrow> None
             | Inr date_obj \<Rightarrow>
                 (case before_days_ago date_obj today 30 of
                    Inl e \<Rightarrow> None
                  | Inr too_old \<Rightarrow>
                      if too_old then
                        (case replace_year date_obj (current_year + 1) of
                           Inl e \<Rightarrow> None
                         | Inr date_obj \<Rightarrow> Some (strftime_ymd zero_pad date_obj))
                      else Some (strftime_ymd zero_pad date_obj)))
          else Some (strftime_ymd zero_pad date_obj))"

fun try_formats ::
  "bool \<Rightarrow> string \<Rightarrow> nat \<Rightarrow> datetime \<Rightarrow> string list \<Rightarrow> string option" where
  "try_formats zero_pad date_text current_year today [] = None"
| "try_formats zero_pad date_text current_year today (fmt # fmts) =
     (case try_format zero_pad date_text current_year today fmt of
        Some result \<Rightarrow> Some result
      | None \<Rightarrow> try_formats zero_pad date_text current_year today fmts)"

definition parse_date_optimized :: "bool \<Rightarrow> string \<Rightarrow> nat \<Rightarrow> datetime \<Rightarrow> string option" where
  "parse_date_optimized zero_pad date_text current_year today =
     (if date_text = [] then None
      else try_formats zero_pad (title (strip date_text)) current_year today formats)"

text \<open>
  \<open>TVInsiderScraperOptimized._parse_date\<close> (scraper_optimized.py), transcribed from its
  own text.
\<close>

definition optimized_formats :: "string list" where
  "optimized_formats = [''%A, %B %d, %Y'', ''%B %d, %Y'', ''%A, %B %d'', ''%B %d'']"

definition optimized_try_format ::
  "bool \<Rightarrow> string \<Rightarrow> nat \<Rightarrow> datetime \<Rightarrow> string \<Rightarrow> string option" where
  "optimized_try_format zero_pad date_text current_year today fmt =
     (case strptime date_text fmt of
        Inl e \<Rightarrow> None
      | Inr date_obj \<Rightarrow>
          if \<not> py_in ''%Y'' fmt then
            (case replace_year date_obj current_year of
               Inl e \<Rightarrow> None
             | Inr date_obj \<Rightarrow>
                 (case before_days_ago date_obj today 30 of
                    Inl e \<Rightarrow> None
                  | Inr too_old \<Rightarrow>
                      if too_old then
                        (case replace_year date_obj (current_year + 1) of
                           Inl e \<Rightarrow> None
                         | Inr date_obj \<Rightarrow> Some (strftime_ymd zero_pad date_obj))
                      else Some (strftime_ymd zero_pad date_obj)))
          else Some (strftime_ymd zero_pad date_obj))"

fun optimized_try_formats ::
  "bool \<Rightarrow> string \<Rightarrow> nat \<Rightarrow> datetime \<Rightarrow> string list \<Rightarrow> string option" where
  "optimized_try_formats zero_pad date_text current_year today [] = None"
| "optimized_try_formats zero_pad date_text current_year today (fmt # fmts) =
     (case optimized_try_format zero_pad date_text current_year today fmt of
        Some result \<Rightarrow> Some result
      | None \<Rightarrow> optimized_try_formats zero_pad date_text current_year today fmts)"

definition optimized_parse_date :: "bool \<Rightarrow> string \<Rightarrow> nat \<Rightarrow> datetime \<Rightarrow> string option" where
  "optimized_parse_date zero_pad date_text current_year today =
     (if date_text = [] then None
      else optimized_try_formats zero_pad (title (strip date_text)) current_year today optimized_formats)"



section \<open>Records\<close>

text \<open>
  A record is a Python \<open>dict\<close> from field names to strings. \<open>get_or\<close> is
  \<open>item.get(key, fallback)\<close>.
\<close>

type_synonym item = "string \<Rightarrow> string option"

definition get_or :: "item \<Rightarrow> string \<Rightarrow> string \<Rightarrow> string" where
  "get_or item key fallback = (case item key of Some v \<Rightarrow> v | None \<Rightarrow> fallback)"

section \<open>The exclusion filter\<close>

definition excluded_keywords :: "string list" where
  "excluded_keywords =
     [''Sports'', ''VOD / Buy / Rent'', ''YouTube'', ''Fox Soccer Plus'',
      ''ESPN'', ''Gold Channel'', ''Baseball'', ''Cup'', ''Football'', ''Championship'',
      ''WWE'', ''NFL'', ''Tennis'', ''Formula 1'', ''NBA'', ''Apple TV+'', ''Soccer'',
      ''Boxing'', ''UFC'', ''MMA'', ''Golf'', ''Hockey'', ''Cricket'', ''Rugby'']"

text \<open>
  \<^verbatim>\<open>content_text = f"{item.get('name', '')} {item.get('type', '')} {item.get('channel', '')}"\<close>
\<close>

definition content_text :: "item \<Rightarrow> string" where
  "content_text item =
     get_or item ''name'' [] @ '' '' @ get_or item ''type'' [] @ '' '' @ get_or item ''channel'' []"

text \<open>
  \<^verbatim>\<open>any(keyword.lower() in content_text.lower() for keyword in excluded_keywords)\<close>
\<close>

definition any_keyword :: "string list \<Rightarrow> string \<Rightarrow> bool" where
  "any_keyword keywords text = list_ex (\<lambda>keyword. py_in (lower keyword) (lower text)) keywords"

fun filter_excluded_content :: "item list \<Rightarrow> item list" where
  "filter_excluded_content [] = []"
| "filter_excluded_content (item # items) =
     (if \<not> any_keyword excluded_keywords (content_text item)
      then item # filter_excluded_content items
      else filter_excluded_content items)"

text \<open>\<open>TVInsiderScraperOptimized._filter_excluded_content\<close>, from its own text.\<close>

definition optimized_excluded_keywords :: "string list" where
  "optimized_excluded_keywords =
     [''Sports'', ''VOD / Buy / Rent'', ''YouTube'', ''Fox Soccer Plus'',
      ''ESPN'', ''Gold Channel'', ''Baseball'', ''Cup'', ''Football'', ''Championship'',
      ''WWE'', ''NFL'', ''Tennis'', ''Formula 1'', ''NBA'', ''Apple TV+'', ''Soccer'',
      ''Boxing'', ''UFC'', ''MMA'', ''Golf'', ''Hockey'', ''Cricket'', ''Rugby'']"

fun optimized_filter_excluded_content :: "item list \<Rightarrow> item list" where
  "optimized_filter_excluded_content [] = []"
| "optimized_filter_excluded_content (item # items) =
     (if \<not> any_keyword optimized_excluded_keywords
             (get_or item ''name'' [] @ '' '' @ get_or item ''type'' [] @ '' '' @
              get_or item ''channel'' [])
      then item # optimized_filter_excluded_content items
      else optimized_filter_excluded_content items)"

section \<open>The date-range filter\<close>

text \<open>
  \<open>TVInsiderScraper._filter_by_date_range\<close>. A record without a date, with an empty date
  or with a date that does not parse is kept; when a bound does not parse, the list is
  returned as it came.
\<close>

definition in_range :: "datetime \<Rightarrow> datetime \<Rightarrow> datetime \<Rightarrow> bool" where
  "in_range start item_date end = (dt_le start item_date \<and> dt_le item_date end)"

fun date_range_loop :: "datetime \<Rightarrow> datetime \<Rightarrow> item list \<Rightarrow> item list" where
  "date_range_loop start end [] = []"
| "date_range_loop start end (item # items) =
     (if get_or item ''date'' [] \<noteq> [] then
        (case strptime (get_or item ''date'' []) ''%Y-%m-%d'' of
           Inr item_date \<Rightarrow>
             if in_range start item_date end then item # date_range_loop start end items
             else date_range_loop start end items
         | Inl e \<Rightarrow> item # date_range_loop start end items)
      else item # date_range_loop start end items)"

definition filter_by_date_range :: "item list \<Rightarrow> string \<Rightarrow> string \<Rightarrow> item list" where
  "filter_by_date_range items start_date end_date =
     (case strptime start_date ''%Y-%m-%d'' of
        Inl e \<Rightarrow> items
      | Inr start \<Rightarrow>
          (case strptime end_date ''%Y-%m-%d'' of
             Inl e \<Rightarrow> items
           | Inr end \<Rightarrow> date_range_loop start end items))"

section \<open>The extraction pass\<close>

text \<open>
  The script \<open>extractAllData\<close> walks the children of \<open>main section\<close>. What it reads of a
  child is its tag name, its text, and the results of the five selectors and of \<open>href\<close>;
  a selector that finds nothing is \<open>None\<close> (\<open>?.\<close> then gives \<open>undefined\<close>, and
  \<open>|| ''\<close> the empty string).
\<close>

record element =
  tagName :: string
  textContent :: string
  div_h3 :: "string option"
  div_h5 :: "string option"
  div_p :: "string option"
  img_first_child :: "(string \<times> string) option"
  img_nth_child_2 :: "string option"
  href :: string

text \<open>
  \<open>String.prototype.trim\<close> on code points below 256: white space is 9 to 13, the blank
  and the no-break space 0xA0 (the next-line character 0x85 is not white space for
  JavaScript).
\<close>

definition js_is_space :: "char \<Rightarrow> bool" where
  "js_is_space c = (c \<in> set [CHR 0x09, CHR 0x0A, CHR 0x0B, CHR 0x0C, CHR 0x0D, CHR '' '',
                               CHR 0xA0])"

definition trim :: "string \<Rightarrow> string" where
  "trim s = rev (dropWhile js_is_space (rev (dropWhile js_is_space s)))"

definition or_empty :: "string option \<Rightarrow> string" where
  "or_empty v = (case v of Some s \<Rightarrow> s | None \<Rightarrow> [])"

text \<open>The object built in scraper_optimized.py, as the \<open>dict\<close> Selenium returns for it.\<close>

definition optimized_extract_item :: "string \<Rightarrow> element \<Rightarrow> item" where
  "optimized_extract_item currentDate elem =
     map_of
       [(''date_header'', currentDate),
        (''name'', or_empty (div_h3 elem)),
        (''type'', or_empty (div_h5 elem)),
        (''description'', or_empty (div_p elem)),
        (''channel'', or_empty (map_option fst (img_first_child elem))),
        (''channel_image'', or_empty (map_option snd (img_first_child elem))),
        (''show_image'', or_empty (img_nth_child_2 elem)),
        (''website'', href elem)]"

text \<open>The object built in scraper.py has two more fields.\<close>

definition extract_item :: "string \<Rightarrow> element \<Rightarrow> item" where
  "extract_item currentDate elem =
     map_of
       [(''date_header'', currentDate),
        (''name'', or_empty (div_h3 elem)),
        (''type'', or_empty (div_h5 elem)),
        (''description'', or_empty (div_p elem)),
        (''channel'', or_empty (map_option fst (img_first_child elem))),
        (''channel_image'', or_empty (map_option snd (img_first_child elem))),
        (''show_image'', or_empty (img_nth_child_2 elem)),
        (''website'', href elem),
        (''website_url'', []),
        (''country'', ''US'')]"

text \<open>
  The loop over \<open>section.children\<close>; \<open>results\<close> is returned in document order. The
  first argument is the object literal of the module at hand.
\<close>

fun extract_loop :: "(string \<Rightarrow> element \<Rightarrow> item) \<Rightarrow> string \<Rightarrow> element list \<Rightarrow> item list" where
  "extract_loop build currentDate [] = []"
| "extract_loop build currentDate (elem # elements) =
     (if tagName elem = ''H6'' then extract_loop build (trim (textContent elem)) elements
      else if tagName elem = ''A'' \<and> currentDate \<noteq> [] then
        (if get_or (build currentDate elem) ''name'' [] \<noteq> []
         then build currentDate elem # extract_loop build currentDate elements
         else extract_loop build currentDate elements)
      else extract_loop build currentDate elements)"

text \<open>
  The argument is what \<open>document.querySelector('main section')\<close> finds: \<open>None\<close> when
  there is no such element, and its children otherwise.
\<close>

definition extractAllData :: "element list option \<Rightarrow> item list" where
  "extractAllData section =
     (case section of None \<Rightarrow> [] | Some elements \<Rightarrow> extract_loop extract_item [] elements)"

definition optimized_extractAllData :: "element list option \<Rightarrow> item list" where
  "optimized_extractAllData section =
     (case section of
        None \<Rightarrow> []
      | Some elements \<Rightarrow> extract_loop optimized_extract_item [] elements)"

section \<open>Resolving and filtering the extracted records\<close>

text \<open>
  \<open>str.replace(old, new)\<close> for a non-empty \<open>old\<close>: occurrences are replaced from left to
  right, without overlap. The counter is the number of characters of a replaced
  occurrence still to be skipped.
\<close>

fun replace_from :: "string \<Rightarrow> string \<Rightarrow> nat \<Rightarrow> string \<Rightarrow> string" where
  "replace_from old new k [] = []"
| "replace_from old new (Suc k) (c # cs) = replace_from old new k cs"
| "replace_from old new 0 (c # cs) =
     (if startswith (c # cs) old then new @ replace_from old new (length old - 1) cs
      else c # replace_from old new 0 cs)"

definition replace :: "string \<Rightarrow> string \<Rightarrow> string \<Rightarrow> string" where
  "replace s old new = replace_from old new 0 s"

text \<open>
  The loop of \<open>_scrape_by_date_navigation\<close> and of \<open>scrape_date_range\<close> over \<open>all_data\<close>
  (the two differ in the name of the resolver only, which is the first argument).
  \<open>clock k\<close> is what \<open>datetime.now()\<close> returns while the \<open>k\<close>-th remaining record is
  resolved. The body of the loop is \<open>process_item\<close>: it gives the record to append,
  if any. A record is appended after \<open>date\<close> is set, \<open>date_header\<close> removed and the
  channel name corrected; \<open>item['channel']\<close> raises for a record without that field,
  and the bare \<open>except\<close> then skips the record.
\<close>

definition process_item ::
  "(string \<Rightarrow> nat \<Rightarrow> datetime \<Rightarrow> string option) \<Rightarrow> nat \<Rightarrow> datetime \<Rightarrow>
   datetime \<Rightarrow> datetime \<Rightarrow> item \<Rightarrow> item option" where
  "process_item resolve current_year today start end item =
     (case resolve (get_or item ''date_header'' []) current_year today of
        None \<Rightarrow> None
      | Some parsed_date \<Rightarrow>
          if parsed_date = [] then None
          else
            (case strptime parsed_date ''%Y-%m-%d'' of
               Inl e \<Rightarrow> None
             | Inr item_date \<Rightarrow>
                 if in_range start item_date end then
                   (case item ''channel'' of
                      None \<Rightarrow> None
                    | Some channel \<Rightarrow>
                        Some (item(''date'' \<mapsto> parsed_date, ''date_header'' := None,
                                   ''channel'' \<mapsto> replace channel ''Parmount+'' ''Paramount+'')))
                 else None))"

fun process_items ::
  "(string \<Rightarrow> nat \<Rightarrow> datetime \<Rightarrow> string option) \<Rightarrow> nat \<Rightarrow> (nat \<Rightarrow> datetime) \<Rightarrow>
   datetime \<Rightarrow> datetime \<Rightarrow> item list \<Rightarrow> item list" where
  "process_items resolve current_year clock start end [] = []"
| "process_items resolve current_year clock start end (item # items) =
     (case process_item resolve current_year (clock 0) start end item of
        None \<Rightarrow> process_items resolve current_year (\<lambda>k. clock (Suc k)) start end items
      | Some filtered \<Rightarrow>
          filtered # process_items resolve current_year (\<lambda>k. clock (Suc k)) start end items)"

section \<open>The pipeline\<close>

text \<open>
  Computations that run in a world and may raise; \<open>bind\<close> is sequencing, where an
  exception ends the sequence.
\<close>

type_synonym ('p, 'a) action = "'p world \<Rightarrow> (error + 'a) \<times> 'p world"

definition bind ::
  "('w \<Rightarrow> ('e + 'a) \<times> 'w) \<Rightarrow> ('a \<Rightarrow> 'w \<Rightarrow> ('e + 'b) \<times> 'w) \<Rightarrow> 'w \<Rightarrow> ('e + 'b) \<times> 'w" where
  "bind m f w = (case m w of (Inl e, w') \<Rightarrow> (Inl e, w') | (Inr v, w') \<Rightarrow> f v w')"

definition pure_result :: "'e + 'a \<Rightarrow> 'w \<Rightarrow> ('e + 'a) \<times> 'w" where
  "pure_result r w = (r, w)"

text \<open>
  The exceptions raised while the browser is started and configured, by class: the
  \<open>except\<close> clauses of \<open>_init_driver\<close> tell \<open>OSError\<close> and \<open>WebDriverException\<close>
  apart; every other class is \<open>OtherException\<close>. The string is \<open>str(e)\<close>.
\<close>

datatype failure = OSError string | WebDriverException string | OtherException string

record 'p driver =
  maximize_window :: "'p \<Rightarrow> (failure + unit) \<times> 'p"
  set_page_load_timeout :: "int \<Rightarrow> 'p \<Rightarrow> (failure + unit) \<times> 'p"
  implicitly_wait :: "int \<Rightarrow> 'p \<Rightarrow> (failure + unit) \<times> 'p"
  driver_get :: "('p, unit) call"
  scroll_height :: "('p, int) call"
  scroll_to_bottom :: "('p, unit) call"
  main_section :: "('p, element list option) call"
  driver_quit :: "('p, unit) call"

text \<open>
  \<^verbatim>\<open>
  try:
      driver.get(self.base_url)
      time.sleep(3)
  except Exception as e:
      if "timeout" in str(e).lower():
          raise Exception("Website timeout: ...")
      else:
          raise
  \<close>
\<close>

definition load_page :: "'p driver \<Rightarrow> ('p, unit) action" where
  "load_page driver w =
     (case perform (driver_get driver) Get (\<lambda>_. Returned) w of
        (Inl (Error msg), w') \<Rightarrow>
          if py_in ''timeout'' (lower msg)
          then (Inl (Error ''Website timeout: The TVInsider website is not responding. Please try again later.''), w')
          else (Inl (Error msg), w')
      | (Inr u, w') \<Rightarrow> (Inr u, w'))"

text \<open>
  The statements of \<open>_scrape_by_date_navigation\<close> between the launch of the browser and
  the \<open>return\<close>. The \<open>except\<close> clause of the outer \<open>try\<close> logs and raises again, so
  it changes nothing. The first parameter is the platform's way of printing \<open>%Y\<close>.
\<close>

definition scrape_body ::
  "bool \<Rightarrow> 'p driver \<Rightarrow> nat \<Rightarrow> (nat \<Rightarrow> datetime) \<Rightarrow> string \<Rightarrow> string \<Rightarrow>
   ('p, item list) action" where
  "scrape_body zero_pad driver current_year clock start_date end_date =
     bind (pure_result (strptime start_date ''%Y-%m-%d'')) (\<lambda>start.
     bind (pure_result (strptime end_date ''%Y-%m-%d'')) (\<lambda>end.
     bind (load_page driver) (\<lambda>_.
     bind (scroll_loop (scroll_height driver) (scroll_to_bottom driver) max_scrolls) (\<lambda>_.
     bind (perform (main_section driver) Extract (\<lambda>_. Returned)) (\<lambda>section.
     pure_result (Inr (filter_excluded_content
       (process_items (parse_date_optimized zero_pad) current_year clock start end
          (extractAllData section)))))))))"

text \<open>
  \<open>finally: if driver: driver.quit()\<close>. An exception raised by \<open>quit\<close> replaces the
  outcome of the body.
\<close>

definition finally_quit :: "'p driver \<Rightarrow> ('p, 'a) action \<Rightarrow> ('p, 'a) action" where
  "finally_quit driver body w =
     (case body w of
        (r, w') \<Rightarrow>
          (case perform (driver_quit driver) Quit (\<lambda>_. Returned) w' of
             (Inl e, w'') \<Rightarrow> (Inl e, w'')
           | (Inr u, w'') \<Rightarrow> (r, w'')))"

text \<open>
  What the program finds where it runs: whether the file \<open>chrome_driver_path\<close> exists,
  the settings \<open>HEADLESS_BROWSER\<close> and \<open>SCRAPING_TIMEOUT\<close> (any integer: the value of the
  environment variable is not checked), what \<open>webdriver.Chrome(...)\<close> does (it raises, or
  it returns a session showing its first page), and how the platform prints \<open>%Y\<close>.
\<close>

record 'p environment =
  driver_found :: bool
  headless :: bool
  timeout :: int
  chrome :: "failure + 'p"
  zero_pad_year :: bool

definition chrome_driver_path :: string where
  "chrome_driver_path = ''chromedriver-win64'' @ [CHR 0x5C] @ ''chromedriver.exe''"

text \<open>
  The \<open>except\<close> clauses of \<open>TVInsiderScraper._init_driver\<close>: an \<open>OSError\<close> and a
  \<open>WebDriverException\<close> are replaced by an \<open>Exception\<close> with a message of the program;
  an exception of another class is not caught.
\<close>

definition init_failure :: "failure \<Rightarrow> error" where
  "init_failure e =
     (case e of
        OSError msg \<Rightarrow>
          if py_in ''WinError 193'' msg \<or> py_in ''not a valid Win32 application'' msg
          then Error (''ChromeDriver architecture mismatch detected. '' @
                      ''Please run 'python fix_chromedriver.py' to download the correct version for your system.'')
          else Error (''Chrome driver error: '' @ msg)
      | WebDriverException msg \<Rightarrow>
          if py_in ''chromedriver'' (lower msg)
          then Error (''ChromeDriver not found or incompatible. '' @
                      ''Please run 'python fix_chromedriver.py' to fix this issue.'')
          else Error (''Failed to start Chrome. Please ensure Chrome browser is installed. Error: '' @ msg)
      | OtherException msg \<Rightarrow> Error msg)"

text \<open>
  The statements of the \<open>try\<close> block of \<open>TVInsiderScraper._init_driver\<close> after the
  constructor call, on the session it returned:
  \<^verbatim>\<open>
  if not self.headless:
      driver.maximize_window()
  driver.set_page_load_timeout(self.timeout)
  driver.implicitly_wait(10)
  \<close>
\<close>

definition configure :: "'p driver \<Rightarrow> 'p environment \<Rightarrow> 'p world \<Rightarrow> (failure + unit) \<times> 'p world" where
  "configure driver env =
     bind (if headless env then pure_result (Inr ())
           else perform (maximize_window driver) MaximizeWindow (\<lambda>_. Returned)) (\<lambda>_.
     bind (perform (set_page_load_timeout driver (timeout env)) SetPageLoadTimeout (\<lambda>_. Returned)) (\<lambda>_.
     perform (implicitly_wait driver 10) ImplicitlyWait (\<lambda>_. Returned)))"

text \<open>
  \<open>TVInsiderScraper._init_driver\<close>. It returns the session, configured, or it raises;
  when it raises, the calls made so far are all that is left of the run, since the
  session is a local variable of \<open>_init_driver\<close> and no clause of it calls \<open>quit\<close>. The
  result is the exception with those calls, or the world in which the run goes on.
\<close>

definition init_driver :: "'p driver \<Rightarrow> 'p environment \<Rightarrow> (error \<times> event list) + 'p world" where
  "init_driver driver env =
     (if driver_found env then
        (case chrome env of
           Inl e \<Rightarrow> Inl (init_failure e, [(Start, Raised)])
         | Inr p \<Rightarrow>
             (case configure driver env \<lparr>page = p, trace = [(Start, Returned)]\<rparr> of
                (Inl e, w) \<Rightarrow> Inl (init_failure e, trace w)
              | (Inr u, w) \<Rightarrow> Inr w))
      else Inl (Error (''ChromeDriver not found at '' @ chrome_driver_path @
                       ''. Please ensure chromedriver.exe is in the chromedriver-win64 folder.''), []))"

text \<open>
  \<open>TVInsiderScraper._scrape_by_date_navigation\<close>. When \<open>_init_driver\<close> raises,
  \<open>driver\<close> is still \<open>None\<close> in the \<open>finally\<close> clause, which then calls nothing. The
  result is the outcome together with the calls made on the session.
\<close>

definition scrape_by_date_navigation ::
  "'p driver \<Rightarrow> 'p environment \<Rightarrow> nat \<Rightarrow> (nat \<Rightarrow> datetime) \<Rightarrow> string \<Rightarrow> string \<Rightarrow>
   (error + item list) \<times> event list" where
  "scrape_by_date_navigation driver env current_year clock start_date end_date =
     (case init_driver driver env of
        Inl (e, calls) \<Rightarrow> (Inl e, calls)
      | Inr w \<Rightarrow>
          (case finally_quit driver
                  (scrape_body (zero_pad_year env) driver current_year clock start_date end_date)
                  w of
             (r, w') \<Rightarrow> (r, trace w')))"

text \<open>
  \<open>TVInsiderScraperOptimized.scrape_date_range\<close>: the same statements, with a plain
  \<open>driver.get\<close> and the module's own resolver, extraction script and exclusion filter.
\<close>

definition optimized_scrape_body ::
  "bool \<Rightarrow> 'p driver \<Rightarrow> nat \<Rightarrow> (nat \<Rightarrow> datetime) \<Rightarrow> string \<Rightarrow> string \<Rightarrow>
   ('p, item list) action" where
  "optimized_scrape_body zero_pad driver current_year clock start_date end_date =
     bind (pure_result (strptime start_date ''%Y-%m-%d'')) (\<lambda>start.
     bind (pure_result (strptime end_date ''%Y-%m-%d'')) (\<lambda>end.
     bind (perform (driver_get driver) Get (\<lambda>_. Returned)) (\<lambda>_.
     bind (scroll_loop (scroll_height driver) (scroll_to_bottom driver) max_scrolls) (\<lambda>_.
     bind (perform (main_section driver) Extract (\<lambda>_. Returned)) (\<lambda>section.
     pure_result (Inr (optimized_filter_excluded_content
       (process_items (optimized_parse_date zero_pad) current_year clock start end
          (optimized_extractAllData section)))))))))"

text \<open>
  \<open>TVInsiderScraperOptimized._init_driver\<close>: the only call after the constructor is
  \<open>set_page_load_timeout\<close>, and the only \<open>except\<close> clause is for \<open>WebDriverException\<close>.
\<close>

definition optimized_init_failure :: "failure \<Rightarrow> error" where
  "optimized_init_failure e =
     (case e of
        OSError msg \<Rightarrow> Error msg
      | WebDriverException msg \<Rightarrow> Error (''Failed to start Chrome: '' @ msg)
      | OtherException msg \<Rightarrow> Error msg)"

definition optimized_init_driver ::
  "'p driver \<Rightarrow> 'p environment \<Rightarrow> (error \<times> event list) + 'p world" where
  "optimized_init_driver driver env =
     (if driver_found env then
        (case chrome env of
           Inl e \<Rightarrow> Inl (optimized_init_failure e, [(Start, Raised)])
         | Inr p \<Rightarrow>
             (case perform (set_page_load_timeout driver (timeout env)) SetPageLoadTimeout
                     (\<lambda>_. Returned) \<lparr>page = p, trace = [(Start, Returned)]\<rparr> of
                (Inl e, w) \<Rightarrow> Inl (optimized_init_failure e, trace w)
              | (Inr u, w) \<Rightarrow> Inr w))
      else Inl (Error (''ChromeDriver not found at '' @ chrome_driver_path), []))"

definition optimized_scrape_date_range ::
  "'p driver \<Rightarrow> 'p environment \<Rightarrow> nat \<Rightarrow> (nat \<Rightarrow> datetime) \<Rightarrow> string \<Rightarrow> string \<Rightarrow>
   (error + item list) \<times> event list" where
  "optimized_scrape_date_range driver env current_year clock start_date end_date =
     (case optimized_init_driver driver env of
        Inl (e, calls) \<Rightarrow> (Inl e, calls)
      | Inr w \<Rightarrow>
          (case finally_quit driver
                  (optimized_scrape_body (zero_pad_year env) driver current_year clock
                     start_date end_date)
                  w of
             (r, w') \<Rightarrow> (r, trace w')))"

section \<open>Example data\<close>

text \<open>
  A calendar page in the shape the script expects: date headers (\<open>H6\<close>) followed by
  listings (\<open>A\<close>). The page has a listing before its first header, a listing without a
  title, a header that is no date, and a listing of a sports channel.
\<close>

definition header :: "string \<Rightarrow> element" where
  "header text =
     \<lparr>tagName = ''H6'', textContent = text, div_h3 = None, div_h5 = None, div_p = None,
      img_first_child = None, img_nth_child_2 = None, href = []\<rparr>"

definition listing :: "string \<Rightarrow> string \<Rightarrow> element" where
  "listing name channel =
     \<lparr>tagName = ''A'', textContent = name, div_h3 = Some name, div_h5 = Some ''Series'',
      div_p = None, img_first_child = Some (channel, ''logo.png''),
      img_nth_child_2 = Some ''show.jpg'', href = ''https://www.tvinsider.com/show/''\<rparr>"

definition calendar :: "element list" where
  "calendar =
     [listing ''Early'' ''Netflix'',
      header ''Monday, June 2, 2025'',
      listing ''Show A'' ''Netflix'',
      listing [] ''Hulu'',
      header ''Sometime Soon'',
      listing ''Show C'' ''Netflix'',
      header ''  tuesday, june 3, 2025 '',
      listing ''Show B'' ''ESPN'']"

text \<open>
  A browser that shows a fixed document: the page state counts the scrolls, the height
  is a function of that count, and no call raises.
\<close>

definition static_driver :: "element list option \<Rightarrow> (nat \<Rightarrow> int) \<Rightarrow> nat driver" where
  "static_driver section h =
     \<lparr>maximize_window = (\<lambda>k. (Inr (), k)),
      set_page_load_timeout = (\<lambda>seconds k. (Inr (), k)),
      implicitly_wait = (\<lambda>seconds k. (Inr (), k)),
      driver_get = (\<lambda>k. (Inr (), k)),
      scroll_height = page_height h,
      scroll_to_bottom = page_scroll,
      main_section = (\<lambda>k. (Inr section, k)),
      driver_quit = (\<lambda>k. (Inr (), k))\<rparr>"

text \<open>A browser whose page load raises.\<close>

definition failing_driver :: "string \<Rightarrow> nat driver" where
  "failing_driver msg =
     \<lparr>maximize_window = (\<lambda>k. (Inr (), k)),
      set_page_load_timeout = (\<lambda>seconds k. (Inr (), k)),
      implicitly_wait = (\<lambda>seconds k. (Inr (), k)),
      driver_get = (\<lambda>k. (Inl (Error msg), k)),
      scroll_height = page_height grows_twice,
      scroll_to_bottom = page_scroll,
      main_section = (\<lambda>k. (Inr None, k)),
      driver_quit = (\<lambda>k. (Inr (), k))\<rparr>"

text \<open>
  A browser as Chrome is: a page load timeout below zero is refused (\<open>invalid argument\<close>,
  a \<open>WebDriverException\<close>); every other call returns.
\<close>

definition strict_driver :: "nat driver" where
  "strict_driver =
     \<lparr>maximize_window = (\<lambda>k. (Inr (), k)),
      set_page_load_timeout = (\<lambda>seconds k.
         if seconds < 0
         then (Inl (WebDriverException ''Message: invalid argument: value must be a non-negative integer''), k)
         else (Inr (), k)),
      implicitly_wait = (\<lambda>seconds k. (Inr (), k)),
      driver_get = (\<lambda>k. (Inr (), k)),
      scroll_height = page_height grows_twice,
      scroll_to_bottom = page_scroll,
      main_section = (\<lambda>k. (Inr (Some []), k)),
      driver_quit = (\<lambda>k. (Inr (), k))\<rparr>"

text \<open>
  Where the examples run: the driver file is there, the browser is headless, Chrome
  starts, and \<open>SCRAPING_TIMEOUT\<close> is as given.
\<close>

definition desk :: "int \<Rightarrow> bool \<Rightarrow> nat environment" where
  "desk seconds zero_pad =
     \<lparr>driver_found = True, headless = True, timeout = seconds, chrome = Inr 0,
      zero_pad_year = zero_pad\<rparr>"

definition noon :: "nat \<Rightarrow> nat \<Rightarrow> nat \<Rightarrow> datetime" where
  "noon y m d = \<lparr>year = y, month = m, day = d, tod = 43200000000\<rparr>"

text \<open>Records as the later stages see them.\<close>

definition show_a :: item where
  "show_a = map_of [(''name'', ''Show A''), (''type'', ''Series''), (''channel'', ''Netflix''),
                    (''date'', ''2025-06-02'')]"

definition show_b :: item where
  "show_b = map_of [(''name'', ''Show B''), (''type'', ''Series''), (''channel'', ''espn''),
                    (''date'', ''2025-06-03'')]"

definition show_late :: item where
  "show_late = map_of [(''name'', ''Show Late''), (''type'', ''Movie''), (''channel'', ''Hulu''),
                       (''date'', ''2025-07-15'')]"

definition program_mature :: item where
  "program_mature = map_of [(''name'', ''Program''), (''type'', ''Mature''), (''channel'', ''HBO'')]"

text \<open>
  The discipline every step of the pipeline before the \<open>finally\<close> clause keeps: it only
  appends to the trace, it never calls \<open>quit\<close>, and it raises only when a call it made
  on the driver raised.
\<close>

definition call_discipline :: "('p world \<Rightarrow> ('e + 'a) \<times> 'p world) \<Rightarrow> bool" where
  "call_discipline m =
     (\<forall>w r w'. m w = (r, w') \<longrightarrow>
        (\<exists>es. trace w' = trace w @ es \<and> (\<forall>ev \<in> set es. fst ev \<noteq> Quit) \<and>
              (isl r \<longrightarrow> (\<exists>ev \<in> set es. snd ev = Raised))))"

text \<open>A record of the example page, as extracted under the header that is no date.\<close>

definition show_c :: item where
  "show_c = map_of [(''date_header'', ''Sometime Soon''), (''name'', ''Show C''),
                    (''type'', ''Series''), (''channel'', ''Netflix'')]"

section \<open>Properties of the scroll loop\<close>

lemma perform_trace:
  "perform c op out w = (r, w') \<Longrightarrow> \<exists>e. trace w' = trace w @ [e] \<and> (case r of Inl _ \<Rightarrow> e = (op, Raised) | Inr v \<Rightarrow> e = (op, out v))"
  by (auto simp: perform_def split: prod.splits sum.splits)

lemma scroll_loop_shape:
  "scroll_loop height scroll n w = (r, w') \<Longrightarrow>
   \<exists>es. trace w' = trace w @ es \<and> length (filter (\<lambda>e. fst e = Scroll) es) \<le> n \<and>
        length (iterations es) \<le> n \<and>
        (\<forall>p \<in> set (butlast (iterations es)). fst p \<noteq> snd p) \<and>
        (r = Inr () \<longrightarrow> length es = 3 * length (iterations es) \<and>
           (length (iterations es) < n \<longrightarrow>
              iterations es \<noteq> [] \<and> fst (last (iterations es)) = snd (last (iterations es))))"
proof (induction n arbitrary: w r w')
  case 0
  then show ?case by simp
next
  case (Suc n)
  show ?case
  proof (cases "perform height Height Measured w")
    case (Pair r1 w1)
    from perform_trace[OF Pair] obtain e1 where e1: "trace w1 = trace w @ [e1]"
      "case r1 of Inl _ \<Rightarrow> e1 = (Height, Raised) | Inr v \<Rightarrow> e1 = (Height, Measured v)" by blast
    show ?thesis
    proof (cases r1)
      case (Inl x)
      with Suc.prems Pair e1 have "w' = w1" "r = Inl x" "e1 = (Height, Raised)" by auto
      with e1 show ?thesis by (intro exI[of _ "[(Height, Raised)]"]) simp
    next
      case (Inr a)
      note r1 = this
      with e1 have e1h: "e1 = (Height, Measured a)" by simp
      show ?thesis
      proof (cases "perform scroll Scroll (\<lambda>_. Returned) w1")
        case (Pair r2 w2)
        note P2 = this
        from perform_trace[OF Pair] obtain e2 where e2: "trace w2 = trace w1 @ [e2]"
          "case r2 of Inl _ \<Rightarrow> e2 = (Scroll, Raised) | Inr v \<Rightarrow> e2 = (Scroll, Returned)" by blast
        show ?thesis
        proof (cases r2)
          case (Inl x)
          with Suc.prems \<open>perform height Height Measured w = (r1, w1)\<close> r1 P2 e2
          have "w' = w2" "r = Inl x" "e2 = (Scroll, Raised)" by auto
          with e1 e1h e2 show ?thesis by (intro exI[of _ "[(Height, Measured a), (Scroll, Raised)]"]) simp
        next
          case (Inr u)
          note r2 = this
          with e2 have e2s: "e2 = (Scroll, Returned)" by simp
          show ?thesis
          proof (cases "perform height Height Measured w2")
            case (Pair r3 w3)
            note P3 = this
            from perform_trace[OF Pair] obtain e3 where e3: "trace w3 = trace w2 @ [e3]"
              "case r3 of Inl _ \<Rightarrow> e3 = (Height, Raised) | Inr v \<Rightarrow> e3 = (Height, Measured v)" by blast
            show ?thesis
            proof (cases r3)
              case (Inl x)
              with Suc.prems \<open>perform height Height Measured w = (r1, w1)\<close> r1 P2 r2 P3 e3
              have "w' = w3" "r = Inl x" "e3 = (Height, Raised)" by auto
              with e1 e1h e2 e2s e3 show ?thesis
                by (intro exI[of _ "[(Height, Measured a), (Scroll, Returned), (Height, Raised)]"]) simp
            next
              case (Inr b)
              note r3 = this
              with e3 have e3h: "e3 = (Height, Measured b)" by simp
              show ?thesis
              proof (cases "b = a")
                case True
                with Suc.prems \<open>perform height Height Measured w = (r1, w1)\<close> r1 P2 r2 P3 r3
                have "w' = w3" "r = Inr ()" by auto
                with e1 e1h e2 e2s e3 e3h True show ?thesis
                  by (intro exI[of _ "[(Height, Measured a), (Scroll, Returned), (Height, Measured b)]"]) simp
              next
                case False
                with Suc.prems \<open>perform height Height Measured w = (r1, w1)\<close> r1 P2 r2 P3 r3
                have "scroll_loop height scroll n w3 = (r, w')" by auto
                from Suc.IH[OF this] obtain es where es:
                  "trace w' = trace w3 @ es" "length (filter (\<lambda>e. fst e = Scroll) es) \<le> n"
                  "length (iterations es) \<le> n"
                  "\<forall>p \<in> set (butlast (iterations es)). fst p \<noteq> snd p"
                  "r = Inr () \<longrightarrow> length es = 3 * length (iterations es) \<and>
                     (length (iterations es) < n \<longrightarrow>
                        iterations es \<noteq> [] \<and> fst (last (iterations es)) = snd (last (iterations es)))"
                  by blast
                let ?es = "(Height, Measured a) # (Scroll, Returned) # (Height, Measured b) # es"
                have 1: "trace w' = trace w @ ?es" using es(1) e1 e1h e2 e2s e3 e3h by simp
                have 2: "iterations ?es = (a, b) # iterations es" by simp
                have 3: "\<forall>p \<in> set (butlast (iterations ?es)). fst p \<noteq> snd p"
                  using es(4) False by (auto simp: 2)
                show ?thesis
                  apply (rule exI[of _ ?es])
                  using 1 3 es(2,3,5) by (auto simp: 2)
              qed
            qed
          qed
        qed
      qed
    qed
  qed
qed

text \<open>
  Claim C4. Whatever the browser does (every call may return any height, or raise), one run
  of the scroll loop appends to the trace at most 10 scrolls and at most 10 completed
  iterations, and every completed iteration except the last measured two different
  heights. When the loop ends normally its trace consists of completed iterations only,
  and if there are fewer than 10 of them the last one measured the same height before and
  after its scroll: the loop stops at the first iteration whose scroll leaves the height
  unchanged, and at the tenth otherwise. For the page whose height is 1000, 2000, 3000,
  3000, ... (the third scroll is the first that changes nothing) the loop stops in
  iteration 3; this run is \<open>scroll_loop_stops_witness\<close>.
\<close>

theorem scroll_loop_stops:
  assumes "scroll_loop height scroll max_scrolls w = (r, w')"
  shows "\<exists>es. trace w' = trace w @ es \<and> length (filter (\<lambda>e. fst e = Scroll) es) \<le> 10 \<and>
        length (iterations es) \<le> 10 \<and>
        (\<forall>p \<in> set (butlast (iterations es)). fst p \<noteq> snd p) \<and>
        (r = Inr () \<longrightarrow> length es = 3 * length (iterations es) \<and>
           (length (iterations es) < 10 \<longrightarrow>
              iterations es \<noteq> [] \<and> fst (last (iterations es)) = snd (last (iterations es))))"
  using scroll_loop_shape[OF assms[unfolded max_scrolls_def]] by simp

theorem scroll_loop_stops_witness:
  "scroll_loop (page_height grows_twice) page_scroll max_scrolls fresh =
     (Inr (), \<lparr>page = 3, trace = [(Height, Measured 1000), (Scroll, Returned), (Height, Measured 2000),
                                   (Height, Measured 2000), (Scroll, Returned), (Height, Measured 3000),
                                   (Height, Measured 3000), (Scroll, Returned), (Height, Measured 3000)]\<rparr>) \<and>
   iterations [(Height, Measured 1000), (Scroll, Returned), (Height, Measured 2000),
               (Height, Measured 2000), (Scroll, Returned), (Height, Measured 3000),
               (Height, Measured 3000), (Scroll, Returned), (Height, Measured 3000)] = [(1000, 2000), (2000, 3000), (3000, 3000)]"
proof -
  have run: "scroll_loop (page_height grows_twice) page_scroll max_scrolls fresh =
     (Inr (), \<lparr>page = 3, trace = [(Height, Measured 1000), (Scroll, Returned), (Height, Measured 2000),
                                   (Height, Measured 2000), (Scroll, Returned), (Height, Measured 3000),
                                   (Height, Measured 3000), (Scroll, Returned), (Height, Measured 3000)]\<rparr>)"
    by (simp add: max_scrolls_def fresh_def perform_def page_height_def page_scroll_def
        grows_twice_def eval_nat_numeral)
  from scroll_loop_stops[OF run] run show ?thesis by simp
qed

section \<open>Properties of the text functions and of the filters\<close>

lemma startswith_iff: "startswith s k \<longleftrightarrow> (\<exists>b. s = k @ b)"
  by (induction s k rule: startswith.induct) auto

lemma py_in_iff: "py_in k s \<longleftrightarrow> (\<exists>a b. s = a @ k @ b)"
proof (induction s)
  case Nil
  then show ?case by auto
next
  case (Cons c cs)
  show ?case
  proof
    assume "py_in k (c # cs)"
    then consider "startswith (c # cs) k" | "py_in k cs" by auto
    then show "\<exists>a b. c # cs = a @ k @ b"
    proof cases
      case 1
      then obtain b where "c # cs = k @ b" by (auto simp: startswith_iff)
      then have "c # cs = [] @ k @ b" by simp
      then show ?thesis by blast
    next
      case 2
      with Cons obtain a b where "cs = a @ k @ b" by blast
      then have "c # cs = (c # a) @ k @ b" by simp
      then show ?thesis by blast
    qed
  next
    assume "\<exists>a b. c # cs = a @ k @ b"
    then obtain a b where ab: "c # cs = a @ k @ b" by blast
    show "py_in k (c # cs)"
    proof (cases a)
      case Nil
      with ab have "startswith (c # cs) k" by (auto simp: startswith_iff)
      then show ?thesis by simp
    next
      case (Cons x xs)
      with ab have "cs = xs @ k @ b" by simp
      with Cons.IH have "py_in k cs" by blast
      then show ?thesis by simp
    qed
  qed
qed

lemma lower_append: "lower (a @ b) = lower a @ lower b"
  by (simp add: lower_def)

lemma filter_excluded_content_filter:
  "filter_excluded_content items =
     filter (\<lambda>item. \<not> any_keyword excluded_keywords (content_text item)) items"
  by (induction items) auto

lemma optimized_filter_excluded_content_filter:
  "optimized_filter_excluded_content items =
     filter (\<lambda>item. \<not> any_keyword optimized_excluded_keywords (content_text item)) items"
  by (induction items) (auto simp: content_text_def)

lemma date_range_loop_filter:
  "date_range_loop start end items =
     filter (\<lambda>item. get_or item ''date'' [] \<noteq> [] \<longrightarrow>
               (case strptime (get_or item ''date'' []) ''%Y-%m-%d'' of
                  Inr item_date \<Rightarrow> in_range start item_date end | Inl e \<Rightarrow> True)) items"
  by (induction items) (auto split: sum.splits)

lemma filter_by_date_range_filter:
  "\<exists>keep. \<forall>items. filter_by_date_range items start_date end_date = filter keep items"
proof (cases "strptime start_date ''%Y-%m-%d''")
  case (Inl e)
  then have "\<forall>items. filter_by_date_range items start_date end_date = filter (\<lambda>_. True) items"
    by (simp add: filter_by_date_range_def)
  then show ?thesis by blast
next
  case (Inr start)
  note s = this
  show ?thesis
  proof (cases "strptime end_date ''%Y-%m-%d''")
    case (Inl e)
    with s have "\<forall>items. filter_by_date_range items start_date end_date = filter (\<lambda>_. True) items"
      by (simp add: filter_by_date_range_def)
    then show ?thesis by blast
  next
    case (Inr e)
    with s have "\<forall>items. filter_by_date_range items start_date end_date = date_range_loop start e items"
      by (simp add: filter_by_date_range_def)
    then show ?thesis unfolding date_range_loop_filter by blast
  qed
qed

lemma any_keyword_iff:
  "any_keyword keywords text \<longleftrightarrow>
     (\<exists>keyword \<in> set keywords. \<exists>before after. lower text = before @ lower keyword @ after)"
  by (simp add: any_keyword_def list_ex_iff py_in_iff)

lemma espn_any:
  assumes "lower c = ''espn''"
  shows "any_keyword excluded_keywords (n @ '' '' @ t @ '' '' @ c)"
proof -
  have "''ESPN'' \<in> set excluded_keywords" by (simp add: excluded_keywords_def)
  moreover have "lower ''ESPN'' = ''espn''" by code_simp
  moreover have "lower (n @ '' '' @ t @ '' '' @ c) = lower (n @ '' '' @ t @ '' '') @ ''espn'' @ []"
    using assms by (simp add: lower_def)
  ultimately show ?thesis unfolding any_keyword_iff by metis
qed

subsection \<open>Evaluated examples\<close>

lemma pm_text: "content_text program_mature = ''Program Mature HBO''"
  by (simp add: content_text_def get_or_def program_mature_def)

lemma pm_kept: "\<not> any_keyword excluded_keywords ''Program Mature HBO''"
  by code_simp

lemma show_a_text: "content_text show_a = ''Show A Series Netflix''"
  by (simp add: content_text_def get_or_def show_a_def)
lemma show_b_text: "content_text show_b = ''Show B Series espn''"
  by (simp add: content_text_def get_or_def show_b_def)
lemma show_late_text: "content_text show_late = ''Show Late Movie Hulu''"
  by (simp add: content_text_def get_or_def show_late_def)
lemma show_a_kept: "\<not> any_keyword excluded_keywords ''Show A Series Netflix''"
  by code_simp
lemma show_b_dropped: "any_keyword excluded_keywords ''Show B Series espn''"
  by code_simp
lemma show_late_kept: "\<not> any_keyword excluded_keywords ''Show Late Movie Hulu''"
  by code_simp

lemma june1: "strptime ''2025-06-01'' ''%Y-%m-%d'' = Inr \<lparr>year = 2025, month = 6, day = 1, tod = 0\<rparr>"
  by code_simp
lemma june2: "strptime ''2025-06-02'' ''%Y-%m-%d'' = Inr \<lparr>year = 2025, month = 6, day = 2, tod = 0\<rparr>"
  by code_simp
lemma june3: "strptime ''2025-06-03'' ''%Y-%m-%d'' = Inr \<lparr>year = 2025, month = 6, day = 3, tod = 0\<rparr>"
  by code_simp
lemma july15: "strptime ''2025-07-15'' ''%Y-%m-%d'' = Inr \<lparr>year = 2025, month = 7, day = 15, tod = 0\<rparr>"
  by code_simp
lemma in_range_june2: "in_range \<lparr>year = 2025, month = 6, day = 1, tod = 0\<rparr> \<lparr>year = 2025, month = 6, day = 2, tod = 0\<rparr> \<lparr>year = 2025, month = 6, day = 3, tod = 0\<rparr>"
  by code_simp
lemma in_range_june3: "in_range \<lparr>year = 2025, month = 6, day = 1, tod = 0\<rparr> \<lparr>year = 2025, month = 6, day = 3, tod = 0\<rparr> \<lparr>year = 2025, month = 6, day = 3, tod = 0\<rparr>"
  by code_simp
lemma not_in_range_july15: "\<not> in_range \<lparr>year = 2025, month = 6, day = 1, tod = 0\<rparr> \<lparr>year = 2025, month = 7, day = 15, tod = 0\<rparr> \<lparr>year = 2025, month = 6, day = 3, tod = 0\<rparr>"
  by code_simp

lemma show_dates:
  "get_or show_a ''date'' [] = ''2025-06-02''"
  "get_or show_b ''date'' [] = ''2025-06-03''"
  "get_or show_late ''date'' [] = ''2025-07-15''"
  by (simp_all add: get_or_def show_a_def show_b_def show_late_def)

lemma parse_aug21:
  "parse_date_optimized True ''August 21'' 2025 (noon 2025 8 10) = Some ''2025-08-21''"
  "parse_date_optimized False ''August 21'' 2025 (noon 2025 8 10) = Some ''2025-08-21''"
  by code_simp+

section \<open>The exclusion filter (claim C6)\<close>

text \<open>
  Claim C6, as stated, speaks of the concatenation of the name, type and channel fields.
  The program builds its text with a blank between the fields, so a keyword that only
  appears across the border of two fields does not exclude a record: for the record with
  name \<open>Program\<close>, type \<open>Mature\<close> and channel \<open>HBO\<close> the plain concatenation
  \<open>ProgramMatureHBO\<close> contains \<open>mma\<close>, and the filter keeps the record.
\<close>

theorem exclusion_plain_concatenation_counterexample:
  "any_keyword excluded_keywords
     (get_or program_mature ''name'' [] @ get_or program_mature ''type'' [] @
      get_or program_mature ''channel'' []) \<and>
   filter_excluded_content [program_mature] = [program_mature]"
proof
  have "get_or program_mature ''name'' [] @ get_or program_mature ''type'' [] @
      get_or program_mature ''channel'' [] = ''ProgramMatureHBO''"
    by (simp add: get_or_def program_mature_def)
  moreover have "any_keyword excluded_keywords ''ProgramMatureHBO''"
    by code_simp
  ultimately show "any_keyword excluded_keywords
     (get_or program_mature ''name'' [] @ get_or program_mature ''type'' [] @
      get_or program_mature ''channel'' [])" by simp
next
  show "filter_excluded_content [program_mature] = [program_mature]"
    using pm_kept by (simp add: pm_text)
qed

text \<open>
  Claim C6, amended. The exclusion filter keeps exactly the records for which no keyword
  of the vocabulary, in lower case, occurs in the lower-cased text made of the name, the
  type and the channel joined by single blanks (a missing field counts as empty); the
  order of the kept records is unchanged. A record with channel \<open>espn\<close> is excluded
  exactly when the same record with channel \<open>ESPN\<close> is.
\<close>

theorem exclusion_by_joined_text:
  "filter_excluded_content items =
     filter (\<lambda>item. \<not> (\<exists>keyword \<in> set excluded_keywords. \<exists>before after.
        lower (get_or item ''name'' [] @ '' '' @ get_or item ''type'' [] @ '' '' @
               get_or item ''channel'' []) = before @ lower keyword @ after)) items \<and>
   (filter_excluded_content [item(''channel'' \<mapsto> ''espn'')] = []) =
   (filter_excluded_content [item(''channel'' \<mapsto> ''ESPN'')] = [])"
proof
  show "filter_excluded_content items =
     filter (\<lambda>item. \<not> (\<exists>keyword \<in> set excluded_keywords. \<exists>before after.
        lower (get_or item ''name'' [] @ '' '' @ get_or item ''type'' [] @ '' '' @
               get_or item ''channel'' []) = before @ lower keyword @ after)) items"
    unfolding filter_excluded_content_filter any_keyword_iff content_text_def ..
next
  have "lower ''espn'' = ''espn''" "lower ''ESPN'' = ''espn''"
    by code_simp+
  then have "any_keyword excluded_keywords (content_text (item(''channel'' \<mapsto> ''espn'')))"
    "any_keyword excluded_keywords (content_text (item(''channel'' \<mapsto> ''ESPN'')))"
    using espn_any by (simp_all add: content_text_def get_or_def)
  then show "(filter_excluded_content [item(''channel'' \<mapsto> ''espn'')] = []) =
   (filter_excluded_content [item(''channel'' \<mapsto> ''ESPN'')] = [])" by simp
qed

theorem exclusion_by_joined_text_witness:
  "filter_excluded_content [show_a, show_b, program_mature] = [show_a, program_mature] \<and>
   filter_excluded_content [show_a(''channel'' \<mapsto> ''ESPN'')] = []"
proof -
  have 1: "filter_excluded_content [show_a, show_b, program_mature] = [show_a, program_mature]"
    using show_a_kept show_b_dropped pm_kept by (simp add: show_a_text show_b_text pm_text)
  have "filter_excluded_content [show_a(''channel'' \<mapsto> ''espn'')] = []"
  proof -
    have "lower ''espn'' = ''espn''" by code_simp
    from espn_any[OF this] show ?thesis by (simp add: content_text_def get_or_def)
  qed
  with exclusion_by_joined_text[of "[show_a, show_b, program_mature]" show_a] 1
  show ?thesis by simp
qed

section \<open>The two filters commute (claim C7)\<close>

text \<open>
  Claim C7. For every list of records and every pair of bounds (parseable or not),
  filtering by date range and then by exclusion gives the same list as filtering by
  exclusion and then by date range.
\<close>

theorem filters_commute:
  "filter_excluded_content (filter_by_date_range items start_date end_date) =
   filter_by_date_range (filter_excluded_content items) start_date end_date"
proof -
  obtain keep where keep: "\<And>xs. filter_by_date_range xs start_date end_date = filter keep xs"
    using filter_by_date_range_filter by blast
  show ?thesis
    unfolding keep filter_excluded_content_filter filter_filter
    by (rule filter_cong) auto
qed

theorem filters_commute_witness:
  "filter_excluded_content
     (filter_by_date_range [show_a, show_b, show_late] ''2025-06-01'' ''2025-06-03'') = [show_a] \<and>
   filter_by_date_range (filter_excluded_content [show_a, show_b, show_late])
     ''2025-06-01'' ''2025-06-03'' = [show_a]"
proof -
  have "filter_by_date_range [show_a, show_b, show_late] ''2025-06-01'' ''2025-06-03'' =
          [show_a, show_b]"
    using in_range_june2 in_range_june3 not_in_range_july15
    by (simp add: filter_by_date_range_def june1 june2 june3 july15 show_dates)
  then have "filter_excluded_content
     (filter_by_date_range [show_a, show_b, show_late] ''2025-06-01'' ''2025-06-03'') = [show_a]"
    using show_a_kept show_b_dropped by (simp add: show_a_text show_b_text)
  with filters_commute[of "[show_a, show_b, show_late]" "''2025-06-01''" "''2025-06-03''"]
  show ?thesis by simp
qed

section \<open>The two modules agree (claim C9)\<close>

lemma optimized_try_format_eq: "optimized_try_format = try_format"
  by (intro ext) (simp add: optimized_try_format_def try_format_def)

lemma optimized_try_formats_eq:
  "optimized_try_formats zero_pad date_text current_year today fmts =
   try_formats zero_pad date_text current_year today fmts"
  by (induction fmts) (simp_all add: optimized_try_format_eq split: option.splits)

text \<open>
  Claim C9. The resolver of scraper_optimized.py returns, for every header text, current
  year and clock reading, what the resolver of scraper.py returns, and the exclusion
  filters of the two modules return the same list for every list of records.
\<close>

theorem duplicated_logic_equal:
  "optimized_parse_date zero_pad date_text current_year today =
     parse_date_optimized zero_pad date_text current_year today \<and>
   optimized_filter_excluded_content items = filter_excluded_content items"
proof
  have "optimized_formats = formats"
    by (simp add: optimized_formats_def formats_def)
  then show "optimized_parse_date zero_pad date_text current_year today =
     parse_date_optimized zero_pad date_text current_year today"
    by (simp add: optimized_parse_date_def parse_date_optimized_def optimized_try_formats_eq)
next
  have "optimized_excluded_keywords = excluded_keywords"
    by (simp add: optimized_excluded_keywords_def excluded_keywords_def)
  then show "optimized_filter_excluded_content items = filter_excluded_content items"
    by (simp add: optimized_filter_excluded_content_filter filter_excluded_content_filter)
qed

theorem duplicated_logic_equal_witness:
  "optimized_parse_date False ''August 21'' 2025 (noon 2025 8 10) = Some ''2025-08-21'' \<and>
   optimized_filter_excluded_content [show_a, show_b] = [show_a]"
proof -
  have "filter_excluded_content [show_a, show_b] = [show_a]"
    using show_a_kept show_b_dropped by (simp add: show_a_text show_b_text)
  with duplicated_logic_equal[of False "''August 21''" 2025 "noon 2025 8 10" "[show_a, show_b]"]
    parse_aug21(2)
  show ?thesis by simp
qed

section \<open>Records come after a date header (claim C10)\<close>

lemma extract_loop_date_header:
  assumes "\<And>d e. build d e ''date_header'' = Some d"
  shows "item \<in> set (extract_loop build currentDate elements) \<Longrightarrow>
         \<exists>d. item ''date_header'' = Some d \<and> d \<noteq> []"
proof (induction elements arbitrary: currentDate)
  case Nil
  then show ?case by simp
next
  case (Cons elem elements)
  then show ?case using assms by (auto split: if_splits)
qed

lemma extract_loop_before_first_header:
  assumes "\<forall>e \<in> set pre. tagName e \<noteq> ''H6''"
  shows "extract_loop build [] (pre @ rest) = extract_loop build [] rest"
  using assms by (induction pre) auto

lemma extract_item_date_header: "extract_item d e ''date_header'' = Some d"
  by (simp add: extract_item_def)

lemma optimized_extract_item_date_header: "optimized_extract_item d e ''date_header'' = Some d"
  by (simp add: optimized_extract_item_def)

lemma calendar_names:
  "map (\<lambda>item. (item ''name'', item ''date_header'')) (extractAllData (Some calendar)) =
     [(Some ''Show A'', Some ''Monday, June 2, 2025''),
      (Some ''Show C'', Some ''Sometime Soon''),
      (Some ''Show B'', Some ''tuesday, june 3, 2025'')]"
  by (simp add: extractAllData_def calendar_def listing_def header_def extract_item_def
      get_or_def or_empty_def trim_def js_is_space_def)

text \<open>
  Claim C10. In both modules, every record the extraction pass emits carries a non-empty
  \<open>date_header\<close>; and the children of the section that stand before its first \<open>H6\<close>
  contribute nothing: the result is that of the document without them, and a document
  without any \<open>H6\<close> gives no record at all.
\<close>

theorem no_record_without_date_header:
  "(\<forall>item \<in> set (extractAllData section) \<union> set (optimized_extractAllData section).
      \<exists>d. item ''date_header'' = Some d \<and> d \<noteq> []) \<and>
   ((\<forall>e \<in> set pre. tagName e \<noteq> ''H6'') \<longrightarrow>
      extractAllData (Some (pre @ rest)) = extractAllData (Some rest) \<and>
      optimized_extractAllData (Some (pre @ rest)) = optimized_extractAllData (Some rest) \<and>
      extractAllData (Some pre) = [] \<and> optimized_extractAllData (Some pre) = [])"
proof (intro conjI ballI impI)
  fix item
  assume "item \<in> set (extractAllData section) \<union> set (optimized_extractAllData section)"
  then show "\<exists>d. item ''date_header'' = Some d \<and> d \<noteq> []"
    using extract_loop_date_header[of extract_item item "[]", OF extract_item_date_header]
      extract_loop_date_header[of optimized_extract_item item "[]",
        OF optimized_extract_item_date_header]
    by (auto simp: extractAllData_def optimized_extractAllData_def split: option.splits)
next
  assume pre: "\<forall>e \<in> set pre. tagName e \<noteq> ''H6''"
  show "extractAllData (Some (pre @ rest)) = extractAllData (Some rest)"
    using extract_loop_before_first_header[OF pre] by (simp add: extractAllData_def)
  show "optimized_extractAllData (Some (pre @ rest)) = optimized_extractAllData (Some rest)"
    using extract_loop_before_first_header[OF pre] by (simp add: optimized_extractAllData_def)
  show "extractAllData (Some pre) = []"
    using extract_loop_before_first_header[OF pre, of extract_item "[]"]
    by (simp add: extractAllData_def)
  show "optimized_extractAllData (Some pre) = []"
    using extract_loop_before_first_header[OF pre, of optimized_extract_item "[]"]
    by (simp add: optimized_extractAllData_def)
qed

theorem no_record_without_date_header_witness:
  "tagName (listing ''Early'' ''Netflix'') = ''A'' \<and>
   extractAllData (Some ([listing ''Early'' ''Netflix''] @ tl calendar)) = extractAllData (Some (tl calendar)) \<and>
   map (\<lambda>item. (item ''name'', item ''date_header'')) (extractAllData (Some calendar)) =
     [(Some ''Show A'', Some ''Monday, June 2, 2025''),
      (Some ''Show C'', Some ''Sometime Soon''),
      (Some ''Show B'', Some ''tuesday, june 3, 2025'')]"
proof -
  have t: "tagName (listing ''Early'' ''Netflix'') = ''A''" by (simp add: listing_def)
  then have "\<forall>e \<in> set [listing ''Early'' ''Netflix'']. tagName e \<noteq> ''H6''" by simp
  with no_record_without_date_header[of "Some calendar" "[listing ''Early'' ''Netflix'']" "tl calendar"]
  have "extractAllData (Some ([listing ''Early'' ''Netflix''] @ tl calendar)) = extractAllData (Some (tl calendar))"
    by blast
  with t calendar_names show ?thesis by simp
qed

section \<open>Properties of the date resolver\<close>


lemma re_match_groups:
  "(g, r) \<in> set (re_match ts s) \<Longrightarrow> map fst g = concat (map (\<lambda>t. case t of Dir d \<Rightarrow> [d] | _ \<Rightarrow> []) ts)"
proof (induction ts arbitrary: g r s)
  case Nil
  then show ?case by simp
next
  case (Cons t ts)
  then obtain cap rest g' where g': "(g', r) \<in> set (re_match ts rest)" "g = bind_group t cap g'"
    by auto
  from Cons.IH[OF g'(1)] g'(2) show ?case by (cases t) auto
qed

lemma make_datetime_Inr:
  "make_datetime y m d = Inr dt \<Longrightarrow>
     dt = \<lparr>year = y, month = m, day = d, tod = 0\<rparr> \<and> valid_date y m d"
  by (auto simp: make_datetime_def split: if_splits)

lemma strptime_valid:
  "strptime t fmt = Inr dt \<Longrightarrow> valid_date (year dt) (month dt) (day dt) \<and> tod dt = 0"
  by (auto simp: strptime_def Let_def split: option.splits list.splits if_splits
      dest!: make_datetime_Inr)

lemma pattern_yearless:
  "pattern ''%A, %B %d'' = Some [Dir DirA, Lit CHR '','', Spaces, Dir DirB, Spaces, Dir Dird]"
  "pattern ''%B %d'' = Some [Dir DirB, Spaces, Dir Dird]"
  by code_simp+

lemma strptime_yearless:
  assumes "fmt = ''%A, %B %d'' \<or> fmt = ''%B %d''" and "strptime t fmt = Inr dt"
  shows "year dt = 1900 \<and> valid_date 1900 (month dt) (day dt) \<and> tod dt = 0"
proof -
  obtain ts where ts: "pattern fmt = Some ts" "DirY \<notin> set (concat (map (\<lambda>t. case t of Dir d \<Rightarrow> [d] | _ \<Rightarrow> []) ts))"
    using assms(1) pattern_yearless by auto
  from assms(2) ts(1) obtain found rest ms where m: "re_match ts t = (found, rest) # ms"
    by (auto simp: strptime_def split: list.splits)
  then have "(found, rest) \<in> set (re_match ts t)" by simp
  from re_match_groups[OF this] ts(2) have "DirY \<notin> fst ` set found"
    by (metis set_map)
  then have "map_of found DirY = None" by (simp add: map_of_eq_None_iff)
  with assms(2) ts(1) m show ?thesis
    by (auto simp: strptime_def Let_def split: if_splits dest!: make_datetime_Inr)
qed

lemma days_in_month_1900: "1 \<le> m \<Longrightarrow> m \<le> 12 \<Longrightarrow> days_in_month 1900 m \<le> days_in_month y m"
proof -
  assume "1 \<le> m" "m \<le> 12"
  then have "m = 1 \<or> m = 2 \<or> m = 3 \<or> m = 4 \<or> m = 5 \<or> m = 6 \<or> m = 7 \<or> m = 8 \<or> m = 9 \<or>
    m = 10 \<or> m = 11 \<or> m = 12" by arith
  then show ?thesis
    by (elim disjE) (simp_all add: days_in_month_def is_leap_def)
qed

lemma valid_date_any_year:
  "valid_date 1900 m d \<Longrightarrow> 1 \<le> y \<Longrightarrow> y \<le> 9999 \<Longrightarrow> valid_date y m d"
  using days_in_month_1900[of m y] by (auto simp: valid_date_def)

lemma before_days_ago_instant:
  assumes "n < toordinal today" "tod today < 86400000000" "tod date_obj < 86400000000"
  shows "before_days_ago date_obj today n =
           Inr (instant date_obj + n * 86400000000 < instant today)"
proof -
  let ?D = "86400000000::nat"
  obtain k where k: "toordinal today = k + n" using assms(1)
    by (metis add.commute less_imp_add_positive)
  have "(toordinal date_obj < k \<or> (toordinal date_obj = k \<and> tod date_obj < tod today)) \<longleftrightarrow>
        (toordinal date_obj * ?D + tod date_obj + n * ?D < (k + n) * ?D + tod today)"
  proof -
    have "toordinal date_obj < k \<Longrightarrow> toordinal date_obj * ?D + ?D \<le> k * ?D"
      by (metis Suc_leI mult_Suc mult_le_mono1 add.commute)
    moreover have "k < toordinal date_obj \<Longrightarrow> k * ?D + ?D \<le> toordinal date_obj * ?D"
      by (metis Suc_leI mult_Suc mult_le_mono1 add.commute)
    ultimately show ?thesis using assms(2,3)
      by (cases "toordinal date_obj" k rule: linorder_cases) (auto simp: algebra_simps)
  qed
  then show ?thesis using assms(1) k by (simp add: before_days_ago_def instant_def)
qed

lemma try_format_no_match:
  "isl (strptime t fmt) \<Longrightarrow> try_format zero_pad t cy today fmt = None"
  by (cases "strptime t fmt") (simp_all add: try_format_def)

lemma has_year:
  "py_in ''%Y'' ''%A, %B %d, %Y''" "py_in ''%Y'' ''%B %d, %Y''"
  "\<not> py_in ''%Y'' ''%A, %B %d''" "\<not> py_in ''%Y'' ''%B %d''"
  by code_simp+


lemma try_format_yearless:
  assumes fmt: "fmt = ''%A, %B %d'' \<or> fmt = ''%B %d''"
    and parsed: "strptime t fmt = Inr date_obj"
    and cy: "1 \<le> cy" "cy < 9999"
    and today: "30 < toordinal today" "tod today < 86400000000"
  shows "try_format zero_pad t cy today fmt =
           Some (strftime_ymd zero_pad (date_obj\<lparr>year :=
             (if instant (date_obj\<lparr>year := cy\<rparr>) + 30 * 86400000000 < instant today
              then cy + 1 else cy)\<rparr>))"
proof -
  from strptime_yearless[OF fmt parsed]
  have d: "valid_date 1900 (month date_obj) (day date_obj)" "tod date_obj = 0" by simp_all
  have r1: "replace_year date_obj cy = Inr (date_obj\<lparr>year := cy\<rparr>)"
    using valid_date_any_year[OF d(1), of cy] cy by (simp add: replace_year_def)
  have r2: "replace_year (date_obj\<lparr>year := cy\<rparr>) (Suc cy) = Inr (date_obj\<lparr>year := Suc cy\<rparr>)"
    using valid_date_any_year[OF d(1), of "Suc cy"] cy by (simp add: replace_year_def)
  have b: "before_days_ago (date_obj\<lparr>year := cy\<rparr>) today 30 =
             Inr (instant (date_obj\<lparr>year := cy\<rparr>) + 30 * 86400000000 < instant today)"
    using before_days_ago_instant[of 30 today "date_obj\<lparr>year := cy\<rparr>"] today d(2) by simp
  have y: "\<not> py_in ''%Y'' fmt" using fmt has_year by auto
  show ?thesis
    by (simp add: try_format_def parsed y r1 b r2)
qed

lemma aug21_formats:
  "isl (strptime ''August 21'' ''%A, %B %d, %Y'')"
  "isl (strptime ''August 21'' ''%B %d, %Y'')"
  "isl (strptime ''August 21'' ''%A, %B %d'')"
  "strptime ''August 21'' ''%B %d'' = Inr \<lparr>year = 1900, month = 8, day = 21, tod = 0\<rparr>"
  "title (strip ''August 21'') = ''August 21''"
  by code_simp+

lemma dec31_formats:
  "isl (strptime ''December 31'' ''%A, %B %d, %Y'')"
  "isl (strptime ''December 31'' ''%B %d, %Y'')"
  "isl (strptime ''December 31'' ''%A, %B %d'')"
  "strptime ''December 31'' ''%B %d'' = Inr \<lparr>year = 1900, month = 12, day = 31, tod = 0\<rparr>"
  "title (strip ''December 31'') = ''December 31''"
  by code_simp+

lemma ordinals:
  "ymd2ord 2025 8 21 = 739484" "ymd2ord 2025 8 10 = 739473"
  "ymd2ord 2025 12 31 = 739616" "ymd2ord 2025 (Suc 0) 5 = 739256"
  by code_simp+

lemma replace_2025:
  "replace_year \<lparr>year = 1900, month = 8, day = 21, tod = 0\<rparr> 2025 =
     Inr \<lparr>year = 2025, month = 8, day = 21, tod = 0\<rparr>"
  "replace_year \<lparr>year = 1900, month = 12, day = 31, tod = 0\<rparr> 2025 =
     Inr \<lparr>year = 2025, month = 12, day = 31, tod = 0\<rparr>"
  by code_simp+

lemma strftime_padded:
  "strftime_ymd True \<lparr>year = 2025, month = 8, day = 21, tod = 0\<rparr> = ''2025-08-21''"
  "strftime_ymd True \<lparr>year = 2025, month = 12, day = 31, tod = 0\<rparr> = ''2025-12-31''"
  "strftime_ymd True \<lparr>year = 2024, month = 12, day = 15, tod = 0\<rparr> = ''2024-12-15''"
  by code_simp+

lemma strftime_unpadded:
  "strftime_ymd False \<lparr>year = 2025, month = 8, day = 21, tod = 0\<rparr> = ''2025-08-21''"
  "strftime_ymd False \<lparr>year = 2025, month = 12, day = 31, tod = 0\<rparr> = ''2025-12-31''"
  "strftime_ymd False \<lparr>year = 2024, month = 12, day = 15, tod = 0\<rparr> = ''2024-12-15''"
  by code_simp+

lemma strftime_examples:
  "strftime_ymd zero_pad \<lparr>year = 2025, month = 8, day = 21, tod = 0\<rparr> = ''2025-08-21''"
  "strftime_ymd zero_pad \<lparr>year = 2025, month = 12, day = 31, tod = 0\<rparr> = ''2025-12-31''"
  "strftime_ymd zero_pad \<lparr>year = 2024, month = 12, day = 15, tod = 0\<rparr> = ''2024-12-15''"
proof -
  show "strftime_ymd zero_pad \<lparr>year = 2025, month = 8, day = 21, tod = 0\<rparr> = ''2025-08-21''"
    by (cases zero_pad) (simp_all add: strftime_padded strftime_unpadded)
  show "strftime_ymd zero_pad \<lparr>year = 2025, month = 12, day = 31, tod = 0\<rparr> = ''2025-12-31''"
    by (cases zero_pad) (simp_all add: strftime_padded strftime_unpadded)
  show "strftime_ymd zero_pad \<lparr>year = 2024, month = 12, day = 15, tod = 0\<rparr> = ''2024-12-15''"
    by (cases zero_pad) (simp_all add: strftime_padded strftime_unpadded)
qed

lemma aug21_any_time:
  "parse_date_optimized zero_pad ''August 21'' 2025 \<lparr>year = 2025, month = 8, day = 10, tod = t\<rparr> =
     Some ''2025-08-21''"
proof -
  have "before_days_ago \<lparr>year = 2025, month = 8, day = 21, tod = 0\<rparr>
          \<lparr>year = 2025, month = 8, day = 10, tod = t\<rparr> 30 = Inr False"
    by (simp add: before_days_ago_def toordinal_def ordinals)
  then have "try_format zero_pad ''August 21'' 2025 \<lparr>year = 2025, month = 8, day = 10, tod = t\<rparr> ''%B %d'' =
          Some ''2025-08-21''"
    by (simp add: try_format_def aug21_formats has_year replace_2025 strftime_examples)
  then show ?thesis
    by (simp add: parse_date_optimized_def formats_def aug21_formats try_format_no_match)
qed

lemma dec31_any_time:
  "parse_date_optimized zero_pad ''December 31'' 2025 \<lparr>year = 2025, month = 1, day = 5, tod = t\<rparr> =
     Some ''2025-12-31''"
proof -
  have "before_days_ago \<lparr>year = 2025, month = 12, day = 31, tod = 0\<rparr>
          \<lparr>year = 2025, month = 1, day = 5, tod = t\<rparr> 30 = Inr False"
    by (simp add: before_days_ago_def toordinal_def ordinals)
  then have "try_format zero_pad ''December 31'' 2025 \<lparr>year = 2025, month = 1, day = 5, tod = t\<rparr> ''%B %d'' =
          Some ''2025-12-31''"
    by (simp add: try_format_def dec31_formats has_year replace_2025 strftime_examples)
  then show ?thesis
    by (simp add: parse_date_optimized_def formats_def dec31_formats try_format_no_match)
qed

lemma june2_formats:
  "find (\<lambda>f. \<not> isl (strptime (title (strip ''June 2'')) f)) formats = Some ''%B %d''"
  "strptime (title (strip ''June 2'')) ''%B %d'' = Inr \<lparr>year = 1900, month = 6, day = 2, tod = 0\<rparr>"
  "30 < toordinal (noon 2025 8 10)" "tod (noon 2025 8 10) < 86400000000"
  "strftime_ymd False (\<lparr>year = 1900, month = 6, day = 2, tod = 0\<rparr>\<lparr>year :=
      (if instant (\<lparr>year = 1900, month = 6, day = 2, tod = 0\<rparr>\<lparr>year := 2025\<rparr>) + 30 * 86400000000
          < instant (noon 2025 8 10)
       then 2025 + 1 else 2025)\<rparr>) = ''2026-06-02''"
  by code_simp+

lemma aug21_find:
  "find (\<lambda>f. \<not> isl (strptime (title (strip ''August 21'')) f)) formats = Some ''%B %d''"
  "strptime (title (strip ''August 21'')) ''%B %d'' = Inr \<lparr>year = 1900, month = 8, day = 21, tod = 0\<rparr>"
  "strftime_ymd False (\<lparr>year = 1900, month = 8, day = 21, tod = 0\<rparr>\<lparr>year :=
      (if instant (\<lparr>year = 1900, month = 8, day = 21, tod = 0\<rparr>\<lparr>year := 2025\<rparr>) + 30 * 86400000000
          < instant (noon 2025 8 10)
       then 2025 + 1 else 2025)\<rparr>) = ''2025-08-21''"
  by code_simp+



lemma friday_lower:
  "title (strip '' friday, december 15, 2024'') = ''Friday, December 15, 2024''"
  by code_simp

subsection \<open>The year of a header without a year (claim C2)\<close>

text \<open>
  Claim C2. Let the first format that parses the normalised header be one of the two
  without \<open>%Y\<close>, and let it give \<open>date_obj\<close>. For a current year from 1 to 9998 and a
  clock reading with a valid time of day, after January 30 of the year 1, the resolver
  returns the date with the current year, unless midnight of that date lies more than
  30 days before the clock reading, in which case it returns the date with the next
  year. With the clock at any time of 2025-08-10, \<open>August 21\<close> resolves to
  \<open>2025-08-21\<close>; with the clock at any time of 2025-01-05, \<open>December 31\<close> resolves to
  \<open>2025-12-31\<close> (that date is not in the past, so the year is not advanced).
\<close>

theorem implicit_year_rule:
  assumes "date_text \<noteq> []"
    and "find (\<lambda>f. \<not> isl (strptime (title (strip date_text)) f)) formats = Some fmt"
    and "fmt = ''%A, %B %d'' \<or> fmt = ''%B %d''"
    and "strptime (title (strip date_text)) fmt = Inr date_obj"
    and "1 \<le> current_year" "current_year < 9999"
    and "30 < toordinal today" "tod today < 86400000000"
  shows "parse_date_optimized zero_pad date_text current_year today =
           Some (strftime_ymd zero_pad (date_obj\<lparr>year :=
             (if instant (date_obj\<lparr>year := current_year\<rparr>) + 30 * 86400000000 < instant today
              then current_year + 1 else current_year)\<rparr>)) \<and>
         parse_date_optimized zero_pad ''August 21'' 2025 \<lparr>year = 2025, month = 8, day = 10, tod = t\<rparr> =
           Some ''2025-08-21'' \<and>
         parse_date_optimized zero_pad ''December 31'' 2025 \<lparr>year = 2025, month = 1, day = 5, tod = t\<rparr> =
           Some ''2025-12-31''"
proof (intro conjI)
  let ?t = "title (strip date_text)"
  note tf = try_format_yearless[OF assms(3,4,5,6,7,8)]
  have none: "isl (strptime ?t ''%A, %B %d, %Y'')" "isl (strptime ?t ''%B %d, %Y'')"
    "fmt = ''%B %d'' \<Longrightarrow> isl (strptime ?t ''%A, %B %d'')"
    using assms(2,3) by (auto simp: formats_def split: if_splits)
  show "parse_date_optimized zero_pad date_text current_year today =
           Some (strftime_ymd zero_pad (date_obj\<lparr>year :=
             (if instant (date_obj\<lparr>year := current_year\<rparr>) + 30 * 86400000000 < instant today
              then current_year + 1 else current_year)\<rparr>))"
    using assms(1,3) tf none
    by (auto simp: parse_date_optimized_def formats_def try_format_no_match)
qed (rule aug21_any_time dec31_any_time)+

theorem implicit_year_rule_witness:
  "parse_date_optimized False ''June 2'' 2025 (noon 2025 8 10) = Some ''2026-06-02'' \<and>
   parse_date_optimized False ''August 21'' 2025 (noon 2025 8 10) = Some ''2025-08-21''"
proof
  have "''June 2'' \<noteq> []" "''%B %d'' = ''%A, %B %d'' \<or> ''%B %d'' = ''%B %d''"
    "(1::nat) \<le> 2025" "(2025::nat) < 9999" by simp_all
  from implicit_year_rule[where zero_pad = False, OF this(1) june2_formats(1) this(2)
      june2_formats(2) this(3,4) june2_formats(3,4)]
  show "parse_date_optimized False ''June 2'' 2025 (noon 2025 8 10) = Some ''2026-06-02''"
    unfolding june2_formats(5) by simp
next
  have "''August 21'' \<noteq> []" "''%B %d'' = ''%A, %B %d'' \<or> ''%B %d'' = ''%B %d''"
    "(1::nat) \<le> 2025" "(2025::nat) < 9999" by simp_all
  from implicit_year_rule[where zero_pad = False, OF this(1) aug21_find(1) this(2)
      aug21_find(2) this(3,4) june2_formats(3,4)]
  show "parse_date_optimized False ''August 21'' 2025 (noon 2025 8 10) = Some ''2025-08-21''"
    unfolding aug21_find(3) by simp
qed

subsection \<open>The order of the formats (claim C3)\<close>








section \<open>Properties of the pipeline\<close>

lemma perform_discipline: "op \<noteq> Quit \<Longrightarrow> call_discipline (perform c op out)"
  unfolding call_discipline_def
proof (intro allI impI)
  fix w r w'
  assume op: "op \<noteq> Quit" and p: "perform c op out w = (r, w')"
  from perform_trace[OF p] obtain e where e: "trace w' = trace w @ [e]"
    "case r of Inl _ \<Rightarrow> e = (op, Raised) | Inr v \<Rightarrow> e = (op, out v)" by blast
  then have "fst e = op" "isl r \<longrightarrow> snd e = Raised" by (cases r; simp)+
  with e(1) op show "\<exists>es. trace w' = trace w @ es \<and> (\<forall>ev \<in> set es. fst ev \<noteq> Quit) \<and>
              (isl r \<longrightarrow> (\<exists>ev \<in> set es. snd ev = Raised))"
    by (intro exI[of _ "[e]"]) simp
qed

lemma pure_discipline: "call_discipline (pure_result (Inr v))"
  by (simp add: call_discipline_def pure_result_def)

lemma bind_discipline:
  assumes "call_discipline m" "\<And>v. call_discipline (f v)"
  shows "call_discipline (bind m f)"
  unfolding call_discipline_def
proof (intro allI impI)
  fix w r w'
  assume b: "bind m f w = (r, w')"
  obtain r1 w1 where m: "m w = (r1, w1)" by (cases "m w")
  from assms(1) m obtain es1 where es1: "trace w1 = trace w @ es1"
    "\<forall>ev \<in> set es1. fst ev \<noteq> Quit" "isl r1 \<longrightarrow> (\<exists>ev \<in> set es1. snd ev = Raised)"
    unfolding call_discipline_def by blast
  show "\<exists>es. trace w' = trace w @ es \<and> (\<forall>ev \<in> set es. fst ev \<noteq> Quit) \<and>
              (isl r \<longrightarrow> (\<exists>ev \<in> set es. snd ev = Raised))"
  proof (cases r1)
    case (Inl e)
    with b m have "r = Inl e" "w' = w1" by (simp_all add: bind_def)
    with es1 Inl show ?thesis by auto
  next
    case (Inr v)
    with b m have "f v w1 = (r, w')" by (simp add: bind_def)
    with assms(2)[of v] obtain es2 where es2: "trace w' = trace w1 @ es2"
      "\<forall>ev \<in> set es2. fst ev \<noteq> Quit" "isl r \<longrightarrow> (\<exists>ev \<in> set es2. snd ev = Raised)"
      unfolding call_discipline_def by blast
    with es1 show ?thesis by (intro exI[of _ "es1 @ es2"]) auto
  qed
qed

lemma scroll_loop_bind:
  "scroll_loop height scroll (Suc n) =
     bind (perform height Height Measured) (\<lambda>last_height.
     bind (perform scroll Scroll (\<lambda>_. Returned)) (\<lambda>_.
     bind (perform height Height Measured) (\<lambda>new_height.
       if new_height = last_height then pure_result (Inr ())
       else scroll_loop height scroll n)))"
  by (rule ext) (simp add: bind_def pure_result_def split: prod.splits sum.splits)

lemma scroll_loop_discipline: "call_discipline (scroll_loop height scroll n)"
proof (induction n)
  case 0
  have "scroll_loop height scroll 0 = pure_result (Inr ())"
    by (rule ext) (simp add: pure_result_def)
  then show ?case by (simp add: pure_discipline)
next
  case (Suc n)
  show ?case
    unfolding scroll_loop_bind
    by (intro bind_discipline perform_discipline) (simp_all add: pure_discipline Suc)
qed

lemma load_page_discipline: "call_discipline (load_page driver)"
  unfolding call_discipline_def
proof (intro allI impI)
  fix w r w'
  assume l: "load_page driver w = (r, w')"
  obtain r1 w1 where p: "perform (driver_get driver) Get (\<lambda>_. Returned) w = (r1, w1)"
    by (cases "perform (driver_get driver) Get (\<lambda>_. Returned) w")
  have d: "call_discipline (perform (driver_get driver) Get (\<lambda>_. Returned))"
    by (rule perform_discipline) simp
  from l p have "w' = w1" "isl r = isl r1"
    by (cases r1; auto simp: load_page_def split: error.splits if_splits)+
  with d p show "\<exists>es. trace w' = trace w @ es \<and> (\<forall>ev \<in> set es. fst ev \<noteq> Quit) \<and>
              (isl r \<longrightarrow> (\<exists>ev \<in> set es. snd ev = Raised))"
    unfolding call_discipline_def by blast
qed

lemma scrape_body_cases:
  "scrape_body zero_pad driver cy clock sd ed w = (r, w') \<Longrightarrow>
     \<exists>es. trace w' = trace w @ es \<and> (\<forall>ev \<in> set es. fst ev \<noteq> Quit) \<and>
          (isl r \<longrightarrow> isl (strptime sd ''%Y-%m-%d'') \<or> isl (strptime ed ''%Y-%m-%d'') \<or>
                     (\<exists>ev \<in> set es. snd ev = Raised))"
proof -
  assume b: "scrape_body zero_pad driver cy clock sd ed w = (r, w')"
  show ?thesis
  proof (cases "strptime sd ''%Y-%m-%d''")
    case (Inl e)
    with b have "w' = w" by (simp add: scrape_body_def bind_def pure_result_def)
    with Inl show ?thesis by simp
  next
    case (Inr start)
    note s = this
    show ?thesis
    proof (cases "strptime ed ''%Y-%m-%d''")
      case (Inl e)
      with b s have "w' = w" by (simp add: scrape_body_def bind_def pure_result_def)
      with Inl show ?thesis by simp
    next
      case (Inr stop)
      let ?rest = "bind (load_page driver) (\<lambda>_.
         bind (scroll_loop (scroll_height driver) (scroll_to_bottom driver) max_scrolls) (\<lambda>_.
         bind (perform (main_section driver) Extract (\<lambda>_. Returned)) (\<lambda>section.
         pure_result (Inr (filter_excluded_content
           (process_items (parse_date_optimized zero_pad) cy clock start stop
              (extractAllData section)))))))"
      have "call_discipline ?rest"
        by (intro bind_discipline load_page_discipline scroll_loop_discipline
            perform_discipline pure_discipline) simp
      moreover from b s Inr have "?rest w = (r, w')"
        by (simp add: scrape_body_def bind_def pure_result_def)
      ultimately show ?thesis unfolding call_discipline_def by blast
    qed
  qed
qed

lemma optimized_scrape_body_cases:
  "optimized_scrape_body zero_pad driver cy clock sd ed w = (r, w') \<Longrightarrow>
     \<exists>es. trace w' = trace w @ es \<and> (\<forall>ev \<in> set es. fst ev \<noteq> Quit) \<and>
          (isl r \<longrightarrow> isl (strptime sd ''%Y-%m-%d'') \<or> isl (strptime ed ''%Y-%m-%d'') \<or>
                     (\<exists>ev \<in> set es. snd ev = Raised))"
proof -
  assume b: "optimized_scrape_body zero_pad driver cy clock sd ed w = (r, w')"
  show ?thesis
  proof (cases "strptime sd ''%Y-%m-%d''")
    case (Inl e)
    with b have "w' = w" by (simp add: optimized_scrape_body_def bind_def pure_result_def)
    with Inl show ?thesis by simp
  next
    case (Inr start)
    note s = this
    show ?thesis
    proof (cases "strptime ed ''%Y-%m-%d''")
      case (Inl e)
      with b s have "w' = w" by (simp add: optimized_scrape_body_def bind_def pure_result_def)
      with Inl show ?thesis by simp
    next
      case (Inr stop)
      let ?rest = "bind (perform (driver_get driver) Get (\<lambda>_. Returned)) (\<lambda>_.
         bind (scroll_loop (scroll_height driver) (scroll_to_bottom driver) max_scrolls) (\<lambda>_.
         bind (perform (main_section driver) Extract (\<lambda>_. Returned)) (\<lambda>section.
         pure_result (Inr (optimized_filter_excluded_content
           (process_items (optimized_parse_date zero_pad) cy clock start stop
              (optimized_extractAllData section)))))))"
      have "call_discipline ?rest"
        by (intro bind_discipline scroll_loop_discipline perform_discipline pure_discipline)
          simp_all
      moreover from b s Inr have "?rest w = (r, w')"
        by (simp add: optimized_scrape_body_def bind_def pure_result_def)
      ultimately show ?thesis unfolding call_discipline_def by blast
    qed
  qed
qed

lemma finally_quit_trace:
  assumes body: "\<And>r w'. body w = (r, w') \<Longrightarrow>
            \<exists>es. trace w' = trace w @ es \<and> (\<forall>ev \<in> set es. fst ev \<noteq> Quit) \<and> (isl r \<longrightarrow> P r es)"
    and f: "finally_quit driver body w = (r, w'')"
  shows "\<exists>es out. trace w'' = trace w @ es @ [(Quit, out)] \<and> (\<forall>ev \<in> set es. fst ev \<noteq> Quit) \<and>
           (isl r \<longrightarrow> out = Raised \<or> (\<exists>r'. isl r' \<and> P r' es))"
proof -
  obtain r1 w1 where b: "body w = (r1, w1)" by (cases "body w")
  from body[OF b] obtain es where es: "trace w1 = trace w @ es"
    "\<forall>ev \<in> set es. fst ev \<noteq> Quit" "isl r1 \<longrightarrow> P r1 es" by blast
  obtain r2 w2 where q: "perform (driver_quit driver) Quit (\<lambda>_. Returned) w1 = (r2, w2)"
    by (cases "perform (driver_quit driver) Quit (\<lambda>_. Returned) w1")
  from perform_trace[OF q] obtain e where e: "trace w2 = trace w1 @ [e]"
    "case r2 of Inl _ \<Rightarrow> e = (Quit, Raised) | Inr v \<Rightarrow> e = (Quit, Returned)" by blast
  from f b q have w: "w'' = w2" and r: "isl r \<longrightarrow> isl r2 \<or> (r = r1 \<and> isl r1)"
    by (cases r2; auto simp: finally_quit_def)+
  show ?thesis
  proof (cases r2)
    case (Inl x)
    with e es w show ?thesis by (intro exI[of _ es] exI[of _ Raised]) simp
  next
    case (Inr u)
    with e es w r show ?thesis by (intro exI[of _ es] exI[of _ Returned]) auto
  qed
qed

lemma configure_discipline: "call_discipline (configure driver env)"
  unfolding configure_def
  by (cases "headless env")
    (auto intro!: bind_discipline perform_discipline pure_discipline)

lemma init_driver_Inr:
  assumes "init_driver driver env = Inr w"
  shows "\<exists>es. trace w = (Start, Returned) # es \<and> (\<forall>ev \<in> set es. fst ev \<noteq> Quit)"
proof -
  from assms obtain p u where
    c: "configure driver env \<lparr>page = p, trace = [(Start, Returned)]\<rparr> = (Inr u, w)"
    by (auto simp: init_driver_def split: if_splits sum.splits prod.splits)
  from configure_discipline[of driver env] c
  obtain es where "trace w = trace \<lparr>page = p, trace = [(Start, Returned)]\<rparr> @ es"
    "\<forall>ev \<in> set es. fst ev \<noteq> Quit"
    unfolding call_discipline_def by blast
  then show ?thesis by simp
qed

lemma optimized_init_driver_Inr:
  assumes "optimized_init_driver driver env = Inr w"
  shows "\<exists>es. trace w = (Start, Returned) # es \<and> (\<forall>ev \<in> set es. fst ev \<noteq> Quit)"
proof -
  from assms obtain p u where
    c: "perform (set_page_load_timeout driver (timeout env)) SetPageLoadTimeout (\<lambda>_. Returned)
          \<lparr>page = p, trace = [(Start, Returned)]\<rparr> = (Inr u, w)"
    by (auto simp: optimized_init_driver_def split: if_splits sum.splits prod.splits)
  have "call_discipline (perform (set_page_load_timeout driver (timeout env)) SetPageLoadTimeout
           (\<lambda>_. Returned))"
    by (rule perform_discipline) simp
  with c obtain es where "trace w = trace \<lparr>page = p, trace = [(Start, Returned)]\<rparr> @ es"
    "\<forall>ev \<in> set es. fst ev \<noteq> Quit"
    unfolding call_discipline_def by blast
  then show ?thesis by simp
qed

lemma scrape_trace:
  assumes i: "init_driver driver env = Inr w0"
    and s: "scrape_by_date_navigation driver env cy clock sd ed = (r, t)"
  shows "\<exists>es out. t = trace w0 @ es @ [(Quit, out)] \<and> (\<forall>ev \<in> set es. fst ev \<noteq> Quit) \<and>
           (isl r \<longrightarrow> out = Raised \<or> isl (strptime sd ''%Y-%m-%d'') \<or>
              isl (strptime ed ''%Y-%m-%d'') \<or> (\<exists>ev \<in> set es. snd ev = Raised))"
proof -
  let ?body = "scrape_body (zero_pad_year env) driver cy clock sd ed"
  obtain w where f: "finally_quit driver ?body w0 = (r, w)" and t: "t = trace w"
    using s i by (auto simp: scrape_by_date_navigation_def split: prod.splits)
  have body: "\<exists>es. trace w' = trace w0 @ es \<and> (\<forall>ev \<in> set es. fst ev \<noteq> Quit) \<and>
          (isl r' \<longrightarrow> isl (strptime sd ''%Y-%m-%d'') \<or> isl (strptime ed ''%Y-%m-%d'') \<or>
                     (\<exists>ev \<in> set es. snd ev = Raised))"
    if "?body w0 = (r', w')" for r' w'
    using that by (rule scrape_body_cases)
  from finally_quit_trace[where P = "\<lambda>r es. isl (strptime sd ''%Y-%m-%d'') \<or>
              isl (strptime ed ''%Y-%m-%d'') \<or> (\<exists>ev \<in> set es. snd ev = Raised)"
      and body = ?body and w = w0, OF body f]
  show ?thesis unfolding t by auto
qed

lemma optimized_scrape_trace:
  assumes i: "optimized_init_driver driver env = Inr w0"
    and s: "optimized_scrape_date_range driver env cy clock sd ed = (r, t)"
  shows "\<exists>es out. t = trace w0 @ es @ [(Quit, out)] \<and> (\<forall>ev \<in> set es. fst ev \<noteq> Quit) \<and>
           (isl r \<longrightarrow> out = Raised \<or> isl (strptime sd ''%Y-%m-%d'') \<or>
              isl (strptime ed ''%Y-%m-%d'') \<or> (\<exists>ev \<in> set es. snd ev = Raised))"
proof -
  let ?body = "optimized_scrape_body (zero_pad_year env) driver cy clock sd ed"
  obtain w where f: "finally_quit driver ?body w0 = (r, w)" and t: "t = trace w"
    using s i by (auto simp: optimized_scrape_date_range_def split: prod.splits)
  have body: "\<exists>es. trace w' = trace w0 @ es \<and> (\<forall>ev \<in> set es. fst ev \<noteq> Quit) \<and>
          (isl r' \<longrightarrow> isl (strptime sd ''%Y-%m-%d'') \<or> isl (strptime ed ''%Y-%m-%d'') \<or>
                     (\<exists>ev \<in> set es. snd ev = Raised))"
    if "?body w0 = (r', w')" for r' w'
    using that by (rule optimized_scrape_body_cases)
  from finally_quit_trace[where P = "\<lambda>r es. isl (strptime sd ''%Y-%m-%d'') \<or>
              isl (strptime ed ''%Y-%m-%d'') \<or> (\<exists>ev \<in> set es. snd ev = Raised)"
      and body = ?body and w = w0, OF body f]
  show ?thesis unfolding t by auto
qed

lemma quit_last:
  assumes "t = es @ [(Quit, out)]" "\<forall>ev \<in> set es. fst ev \<noteq> Quit"
  shows "t \<noteq> [] \<and> fst (last t) = Quit \<and> length (filter (\<lambda>ev. fst ev = Quit) t) = 1"
proof -
  have "filter (\<lambda>ev. fst ev = Quit) es = []" using assms(2) by (simp add: filter_empty_conv)
  with assms(1) show ?thesis by simp
qed

text \<open>
  Once \<open>_init_driver\<close> has returned, the \<open>finally\<close> clause does its work in both
  modules: the trace of the run is not empty, its last call is \<open>quit\<close>, and \<open>quit\<close> is
  called exactly once, whatever the browser does, whether the bounds parse or not, and
  whether the run returns or raises.
\<close>

lemma quit_after_init_driver:
  assumes "init_driver driver env = Inr w0"
  shows "snd (scrape_by_date_navigation driver env cy clock sd ed) \<noteq> [] \<and>
         fst (last (snd (scrape_by_date_navigation driver env cy clock sd ed))) = Quit \<and>
         length (filter (\<lambda>ev. fst ev = Quit)
                  (snd (scrape_by_date_navigation driver env cy clock sd ed))) = 1"
proof -
  obtain r t where s: "scrape_by_date_navigation driver env cy clock sd ed = (r, t)"
    by (cases "scrape_by_date_navigation driver env cy clock sd ed")
  from init_driver_Inr[OF assms] obtain es0 where es0: "trace w0 = (Start, Returned) # es0"
    "\<forall>ev \<in> set es0. fst ev \<noteq> Quit" by blast
  from scrape_trace[OF assms s] obtain es out where es: "t = trace w0 @ es @ [(Quit, out)]"
    "\<forall>ev \<in> set es. fst ev \<noteq> Quit" by blast
  from es0 es have "t = ((Start, Returned) # es0 @ es) @ [(Quit, out)]"
    "\<forall>ev \<in> set ((Start, Returned) # es0 @ es). fst ev \<noteq> Quit" by auto
  from quit_last[OF this] s show ?thesis by simp
qed

lemma quit_after_optimized_init_driver:
  assumes "optimized_init_driver driver env = Inr w0"
  shows "snd (optimized_scrape_date_range driver env cy clock sd ed) \<noteq> [] \<and>
         fst (last (snd (optimized_scrape_date_range driver env cy clock sd ed))) = Quit \<and>
         length (filter (\<lambda>ev. fst ev = Quit)
                  (snd (optimized_scrape_date_range driver env cy clock sd ed))) = 1"
proof -
  obtain r t where s: "optimized_scrape_date_range driver env cy clock sd ed = (r, t)"
    by (cases "optimized_scrape_date_range driver env cy clock sd ed")
  from optimized_init_driver_Inr[OF assms] obtain es0 where es0: "trace w0 = (Start, Returned) # es0"
    "\<forall>ev \<in> set es0. fst ev \<noteq> Quit" by blast
  from optimized_scrape_trace[OF assms s] obtain es out where es: "t = trace w0 @ es @ [(Quit, out)]"
    "\<forall>ev \<in> set es. fst ev \<noteq> Quit" by blast
  from es0 es have "t = ((Start, Returned) # es0 @ es) @ [(Quit, out)]"
    "\<forall>ev \<in> set ((Start, Returned) # es0 @ es). fst ev \<noteq> Quit" by auto
  from quit_last[OF this] s show ?thesis by simp
qed

lemma failing_run:
  "snd (scrape_by_date_navigation (failing_driver ''Timeout: renderer'') (desk 30 True) 2025
     (\<lambda>_. noon 2025 5 20) ''2025-06-01'' ''2025-06-03'') =
   [(Start, Returned), (SetPageLoadTimeout, Returned), (ImplicitlyWait, Returned),
    (Get, Raised), (Quit, Returned)]"
  by code_simp

lemma bad_bound_run:
  "snd (optimized_scrape_date_range (failing_driver ''Timeout: renderer'') (desk 30 True) 2025
     (\<lambda>_. noon 2025 5 20) ''2025-06-01'' ''soon'') =
   [(Start, Returned), (SetPageLoadTimeout, Returned), (Quit, Returned)]"
  by code_simp

lemma calendar_run_trace:
  "snd (scrape_by_date_navigation (static_driver (Some calendar) grows_twice) (desk 30 True) 2025
     (\<lambda>_. noon 2025 5 20) ''2025-06-01'' ''2025-06-03'') =
   [(Start, Returned), (SetPageLoadTimeout, Returned), (ImplicitlyWait, Returned),
    (Get, Returned), (Height, Measured 1000), (Scroll, Returned),
    (Height, Measured 2000), (Height, Measured 2000), (Scroll, Returned),
    (Height, Measured 3000), (Height, Measured 3000), (Scroll, Returned),
    (Height, Measured 3000), (Extract, Returned), (Quit, Returned)]"
  by code_simp

subsection \<open>A session that is not terminated (claim C8)\<close>

text \<open>
  Claim C8 does not hold of the code. \<open>_init_driver\<close> acquires the session with
  \<open>webdriver.Chrome(...)\<close> and then configures it; when a configuration call raises,
  its \<open>except\<close> clauses raise again without calling \<open>quit\<close>, the caller's variable
  \<open>driver\<close> is still \<open>None\<close>, and the \<open>finally\<close> clause calls nothing. So, in a headless
  run in which Chrome starts and \<open>set_page_load_timeout\<close> raises, the run of either
  module raises, and its calls are the constructor call, which returned a session, and
  the call that raised: \<open>quit\<close> is never called on the session.
\<close>

theorem session_leaked_when_configuration_raises:
  assumes "driver_found env" and "headless env" and "chrome env = Inr p"
    and "set_page_load_timeout driver (timeout env) p = (Inl e, p')"
  shows "scrape_by_date_navigation driver env cy clock sd ed =
           (Inl (init_failure e), [(Start, Returned), (SetPageLoadTimeout, Raised)]) \<and>
         optimized_scrape_date_range driver env cy clock sd ed =
           (Inl (optimized_init_failure e), [(Start, Returned), (SetPageLoadTimeout, Raised)])"
  using assms
  by (simp add: scrape_by_date_navigation_def optimized_scrape_date_range_def init_driver_def
      optimized_init_driver_def configure_def bind_def pure_result_def perform_def)

theorem session_leaked_when_configuration_raises_witness:
  "snd (scrape_by_date_navigation strict_driver (desk (- 1) True) 2025
     (\<lambda>_. noon 2025 5 20) ''2025-06-01'' ''2025-06-03'') =
     [(Start, Returned), (SetPageLoadTimeout, Raised)] \<and>
   snd (optimized_scrape_date_range strict_driver (desk (- 1) True) 2025
     (\<lambda>_. noon 2025 5 20) ''2025-06-01'' ''2025-06-03'') =
     [(Start, Returned), (SetPageLoadTimeout, Raised)] \<and>
   isl (fst (scrape_by_date_navigation strict_driver (desk (- 1) True) 2025
     (\<lambda>_. noon 2025 5 20) ''2025-06-01'' ''2025-06-03'')) \<and>
   isl (fst (optimized_scrape_date_range strict_driver (desk (- 1) True) 2025
     (\<lambda>_. noon 2025 5 20) ''2025-06-01'' ''2025-06-03''))"
proof -
  have "driver_found (desk (- 1) True)" "headless (desk (- 1) True)"
    "chrome (desk (- 1) True) = Inr 0"
    "set_page_load_timeout strict_driver (timeout (desk (- 1) True)) 0 =
       (Inl (WebDriverException ''Message: invalid argument: value must be a non-negative integer''), 0)"
    by (simp_all add: desk_def strict_driver_def)
  from session_leaked_when_configuration_raises[OF this, of 2025 "\<lambda>_. noon 2025 5 20"
      "''2025-06-01''" "''2025-06-03''"]
  show ?thesis by simp
qed

subsection \<open>A header that is no date (claim C5)\<close>

lemma process_items_append:
  "process_items resolve cy clock start stop (xs @ ys) =
     process_items resolve cy clock start stop xs @
     process_items resolve cy (\<lambda>k. clock (k + length xs)) start stop ys"
proof (induction xs arbitrary: clock)
  case Nil
  then show ?case by simp
next
  case (Cons x xs)
  show ?case
    by (simp add: Cons[of "\<lambda>k. clock (Suc k)"] split: option.splits)
qed

lemma try_formats_none:
  "\<forall>fmt \<in> set fmts. try_format zero_pad t cy today fmt = None \<Longrightarrow> try_formats zero_pad t cy today fmts = None"
  by (induction fmts) simp_all

lemma parse_none:
  assumes "\<forall>fmt \<in> set formats. isl (strptime (title (strip date_text)) fmt)"
  shows "parse_date_optimized zero_pad date_text cy today = None"
proof -
  have "try_formats zero_pad (title (strip date_text)) cy today formats = None"
  proof (rule try_formats_none, rule ballI)
    fix fmt assume "fmt \<in> set formats"
    with assms have "isl (strptime (title (strip date_text)) fmt)" by blast
    then show "try_format zero_pad (title (strip date_text)) cy today fmt = None"
      by (rule try_format_no_match)
  qed
  then show ?thesis unfolding parse_date_optimized_def by simp
qed

lemma sometime_soon_formats:
  "\<forall>fmt \<in> set formats. isl (strptime (title (strip ''Sometime Soon'')) fmt)"
  by code_simp

lemma show_c_header: "get_or show_c ''date_header'' [] = ''Sometime Soon''"
  by (simp add: get_or_def show_c_def)

lemma calendar_run_names:
  "map_sum id (map (\<lambda>item. (item ''name'', item ''date'')))
     (fst (scrape_by_date_navigation (static_driver (Some calendar) grows_twice) (desk 30 True) 2025
        (\<lambda>_. noon 2025 5 20) ''2025-06-01'' ''2025-06-03'')) =
   Inr [(Some ''Show A'', Some ''2025-06-02'')]"
  by code_simp

text \<open>
  Claim C5. Let the header of a record match none of the four formats. Then the resolver
  returns no date for it, whatever the current year and the clock; the loop over the
  extracted records gives, for a list that contains the record, what it gives for the
  records before it followed by what it gives for the records after it (the record
  contributes nothing); \<open>Sometime Soon\<close> is such a header; and when the pipeline raises,
  either \<open>_init_driver\<close> raised, or a bound did not parse, or a call on the browser
  raised: no record makes it raise.
\<close>

theorem unparseable_header_dropped:
  assumes "\<forall>fmt \<in> set formats. isl (strptime (title (strip (get_or item ''date_header'' []))) fmt)"
  shows "parse_date_optimized zero_pad (get_or item ''date_header'' []) current_year today = None \<and>
         process_items (parse_date_optimized zero_pad) current_year clock start stop (before @ item # after) =
           process_items (parse_date_optimized zero_pad) current_year clock start stop before @
           process_items (parse_date_optimized zero_pad) current_year
             (\<lambda>k. clock (k + Suc (length before))) start stop after \<and>
         parse_date_optimized zero_pad ''Sometime Soon'' current_year today = None \<and>
         (isl (fst (scrape_by_date_navigation driver env current_year clock start_date end_date))
            \<longrightarrow> isl (init_driver driver env) \<or> isl (strptime start_date ''%Y-%m-%d'') \<or>
                isl (strptime end_date ''%Y-%m-%d'') \<or>
                (\<exists>ev \<in> set (snd (scrape_by_date_navigation driver env current_year clock
                                    start_date end_date)). snd ev = Raised))"
proof (intro conjI impI)
  show none: "parse_date_optimized zero_pad (get_or item ''date_header'' []) cy' today' = None" for cy' today'
    using assms by (rule parse_none)
  have "process_items (parse_date_optimized zero_pad) current_year (\<lambda>k. clock (k + length before)) start stop
          (item # after) =
        process_items (parse_date_optimized zero_pad) current_year
          (\<lambda>k. clock (k + Suc (length before))) start stop after"
    using none by (simp add: process_item_def)
  then show "process_items (parse_date_optimized zero_pad) current_year clock start stop (before @ item # after) =
           process_items (parse_date_optimized zero_pad) current_year clock start stop before @
           process_items (parse_date_optimized zero_pad) current_year
             (\<lambda>k. clock (k + Suc (length before))) start stop after"
    by (simp only: process_items_append)
  show "parse_date_optimized zero_pad ''Sometime Soon'' current_year today = None"
    using sometime_soon_formats by (rule parse_none)
next
  assume raised: "isl (fst (scrape_by_date_navigation driver env current_year clock start_date end_date))"
  show "isl (init_driver driver env) \<or> isl (strptime start_date ''%Y-%m-%d'') \<or>
                isl (strptime end_date ''%Y-%m-%d'') \<or>
                (\<exists>ev \<in> set (snd (scrape_by_date_navigation driver env current_year clock
                                    start_date end_date)). snd ev = Raised)"
  proof (cases "init_driver driver env")
    case (Inl failed)
    then show ?thesis by simp
  next
    case (Inr w0)
    obtain r t where s: "scrape_by_date_navigation driver env current_year clock start_date end_date = (r, t)"
      by (cases "scrape_by_date_navigation driver env current_year clock start_date end_date")
    from scrape_trace[OF Inr s] obtain es out where t: "t = trace w0 @ es @ [(Quit, out)]"
      and because: "isl r \<longrightarrow> out = Raised \<or> isl (strptime start_date ''%Y-%m-%d'') \<or>
              isl (strptime end_date ''%Y-%m-%d'') \<or> (\<exists>ev \<in> set es. snd ev = Raised)"
      by blast
    from raised s have "isl r" by simp
    with because t s show ?thesis by auto
  qed
qed

theorem unparseable_header_dropped_witness:
  "parse_date_optimized True (get_or show_c ''date_header'' []) 2025 (noon 2025 5 20) = None \<and>
   process_items (parse_date_optimized True) 2025 (\<lambda>_. noon 2025 5 20)
     \<lparr>year = 2025, month = 6, day = 1, tod = 0\<rparr> \<lparr>year = 2025, month = 6, day = 3, tod = 0\<rparr>
     [show_c] = [] \<and>
   map_sum id (map (\<lambda>item. (item ''name'', item ''date'')))
     (fst (scrape_by_date_navigation (static_driver (Some calendar) grows_twice) (desk 30 True) 2025
        (\<lambda>_. noon 2025 5 20) ''2025-06-01'' ''2025-06-03'')) =
   Inr [(Some ''Show A'', Some ''2025-06-02'')]"
proof -
  have h: "\<forall>fmt \<in> set formats. isl (strptime (title (strip (get_or show_c ''date_header'' []))) fmt)"
    using sometime_soon_formats by (simp only: show_c_header)
  note th = unparseable_header_dropped[OF h, of True 2025 "noon 2025 5 20" "\<lambda>_. noon 2025 5 20"
      "\<lparr>year = 2025, month = 6, day = 1, tod = 0\<rparr>" "\<lparr>year = 2025, month = 6, day = 3, tod = 0\<rparr>"
      "[]" "[]" "static_driver (Some calendar) grows_twice" "desk 30 True" "''2025-06-01''"
      "''2025-06-03''"]
  from th have a: "parse_date_optimized True (get_or show_c ''date_header'' []) 2025 (noon 2025 5 20) = None"
    by (rule conjunct1)
  from th have "process_items (parse_date_optimized True) 2025 (\<lambda>_. noon 2025 5 20)
     \<lparr>year = 2025, month = 6, day = 1, tod = 0\<rparr> \<lparr>year = 2025, month = 6, day = 3, tod = 0\<rparr>
     ([] @ show_c # []) =
     process_items (parse_date_optimized True) 2025 (\<lambda>_. noon 2025 5 20)
     \<lparr>year = 2025, month = 6, day = 1, tod = 0\<rparr> \<lparr>year = 2025, month = 6, day = 3, tod = 0\<rparr> [] @
     process_items (parse_date_optimized True) 2025 (\<lambda>k. noon 2025 5 20)
     \<lparr>year = 2025, month = 6, day = 1, tod = 0\<rparr> \<lparr>year = 2025, month = 6, day = 3, tod = 0\<rparr> []"
    by (rule conjunct1[OF conjunct2])
  then have b: "process_items (parse_date_optimized True) 2025 (\<lambda>_. noon 2025 5 20)
     \<lparr>year = 2025, month = 6, day = 1, tod = 0\<rparr> \<lparr>year = 2025, month = 6, day = 3, tod = 0\<rparr>
     [show_c] = []"
    by (simp add: process_item_def a)
  from a b calendar_run_names show ?thesis by (intro conjI)
qed

end
